theory Spec2Isabelle
  imports Complex_Main
begin

section \<open>JavaScript numbers\<close>

text \<open>
  The calculators of the dashboard compute with JavaScript numbers, the double-precision
  numbers of IEEE 754.  A number is \<open>NaN\<close>, one of the two infinities, the negative
  zero, or a finite real (\<open>Fin 0\<close> is the positive zero).  The result of an arithmetic
  operation is the exact result rounded to the nearest double, a tie going to the even
  significand; a result too large becomes an infinity and a result too small a
  subnormal number or a zero.
\<close>

datatype jsnum = NaN | NegInf | NegZero | Fin real | PosInf

definition zero_of :: "bool \<Rightarrow> jsnum" where
  "zero_of neg = (if neg then NegZero else Fin 0)"

definition inf_of :: "bool \<Rightarrow> jsnum" where
  "inf_of neg = (if neg then NegInf else PosInf)"

text \<open>
  The least positive normal double, the least positive double (a subnormal one), and the
  bound that no finite double reaches.
\<close>

definition min_normal :: real where
  "min_normal = 2 powi (- 1022)"

definition min_subnormal :: real where
  "min_subnormal = 2 powi (- 1074)"

definition overflow_bound :: real where
  "overflow_bound = 2 ^ 1024"

text \<open>
  The distance between neighbouring doubles around \<open>x\<close>: a significand has 53 bits, so
  for \<open>x\<close> between \<open>2 powi e\<close> and \<open>2 powi (e + 1)\<close> it is \<open>2 powi (e - 52)\<close>, and
  below the normal range it is the least positive double.
\<close>

definition quantum :: "real \<Rightarrow> real" where
  "quantum x =
     (if \<bar>x\<bar> < min_normal then min_subnormal
      else 2 powi (\<lfloor>log 2 \<bar>x\<bar>\<rfloor> - 52))"

text \<open>The nearest integer, a tie going to the even one.\<close>

definition round_half_even :: "real \<Rightarrow> int" where
  "round_half_even x =
     (let f = \<lfloor>x\<rfloor>
      in if x - of_int f < 1 / 2 then f
         else if 1 / 2 < x - of_int f then f + 1
         else if even f then f else f + 1)"

text \<open>
  The double nearest to a real.  \<open>neg\<close> is the sign a zero gets when the real is
  exactly 0; a real that is not 0 keeps its sign, also when it is rounded to a zero or
  to an infinity.
\<close>

definition round_double :: "bool \<Rightarrow> real \<Rightarrow> jsnum" where
  "round_double neg x =
     (if x = 0 then zero_of neg
      else
        (let m = of_int (round_half_even (\<bar>x\<bar> / quantum x)) * quantum x
         in if overflow_bound \<le> m then inf_of (x < 0)
            else if m = 0 then zero_of (x < 0)
            else Fin (if x < 0 then - m else m)))"

text \<open>
  Every finite double is a whole multiple of the least positive double.  The predicate
  says so of a real; it is what the properties below need of an input that is a double.
\<close>

definition double_grid :: "real \<Rightarrow> bool" where
  "double_grid x \<longleftrightarrow> of_int \<lfloor>x / min_subnormal\<rfloor> = x / min_subnormal"

text \<open>The sign bit, the zeros, the infinities, and the real a finite number stands for.\<close>

fun is_neg :: "jsnum \<Rightarrow> bool" where
  "is_neg NegInf = True"
| "is_neg NegZero = True"
| "is_neg (Fin x) = (x < 0)"
| "is_neg a = False"

fun is_zero :: "jsnum \<Rightarrow> bool" where
  "is_zero NegZero = True"
| "is_zero (Fin x) = (x = 0)"
| "is_zero a = False"

fun is_inf :: "jsnum \<Rightarrow> bool" where
  "is_inf NegInf = True"
| "is_inf PosInf = True"
| "is_inf a = False"

fun js_val :: "jsnum \<Rightarrow> real" where
  "js_val (Fin x) = x"
| "js_val a = 0"

fun js_neg :: "jsnum \<Rightarrow> jsnum" where
  "js_neg NaN = NaN"
| "js_neg NegInf = PosInf"
| "js_neg PosInf = NegInf"
| "js_neg NegZero = Fin 0"
| "js_neg (Fin x) = (if x = 0 then NegZero else Fin (- x))"

text \<open>
  \<open>a + b\<close>: \<open>Infinity + -Infinity\<close> is \<open>NaN\<close>; an exact sum of 0 is \<open>-0\<close> only when
  both summands are \<open>-0\<close>.
\<close>

definition js_add :: "jsnum \<Rightarrow> jsnum \<Rightarrow> jsnum" where
  "js_add a b =
     (if a = NaN \<or> b = NaN then NaN
      else if is_inf a \<and> is_inf b then (if a = b then a else NaN)
      else if is_inf a then a
      else if is_inf b then b
      else round_double (is_neg a \<and> is_neg b) (js_val a + js_val b))"

definition js_sub :: "jsnum \<Rightarrow> jsnum \<Rightarrow> jsnum" where
  "js_sub a b = js_add a (js_neg b)"

text \<open>\<open>a * b\<close>: \<open>0 * Infinity\<close> is \<open>NaN\<close>; the sign is the product of the signs.\<close>

definition js_mul :: "jsnum \<Rightarrow> jsnum \<Rightarrow> jsnum" where
  "js_mul a b =
     (if a = NaN \<or> b = NaN then NaN
      else if is_inf a \<or> is_inf b then
        (if is_zero a \<or> is_zero b then NaN else inf_of (is_neg a \<noteq> is_neg b))
      else round_double (is_neg a \<noteq> is_neg b) (js_val a * js_val b))"

text \<open>
  \<open>a / b\<close>: a division by zero raises nothing; it yields an infinity or (for \<open>0 / 0\<close>)
  \<open>NaN\<close>, and \<open>Infinity / Infinity\<close> is \<open>NaN\<close>.
\<close>

definition js_div :: "jsnum \<Rightarrow> jsnum \<Rightarrow> jsnum" where
  "js_div a b =
     (if a = NaN \<or> b = NaN then NaN
      else if is_inf a then (if is_inf b then NaN else inf_of (is_neg a \<noteq> is_neg b))
      else if is_inf b then zero_of (is_neg a \<noteq> is_neg b)
      else if is_zero b then (if is_zero a then NaN else inf_of (is_neg a \<noteq> is_neg b))
      else round_double (is_neg a \<noteq> is_neg b) (js_val a / js_val b))"

text \<open>
  \<open>a > b\<close>: false as soon as one side is \<open>NaN\<close>; the two zeros are equal.
\<close>

definition js_gt :: "jsnum \<Rightarrow> jsnum \<Rightarrow> bool" where
  "js_gt a b \<longleftrightarrow>
     a \<noteq> NaN \<and> b \<noteq> NaN \<and>
     (if a = PosInf then b \<noteq> PosInf
      else if b = NegInf then a \<noteq> NegInf
      else \<not> is_inf a \<and> \<not> is_inf b \<and> js_val b < js_val a)"

text \<open>\<open>a >= b\<close> and \<open>a <= b\<close>, false as well when one side is \<open>NaN\<close>.\<close>

definition js_ge :: "jsnum \<Rightarrow> jsnum \<Rightarrow> bool" where
  "js_ge a b \<longleftrightarrow> a \<noteq> NaN \<and> b \<noteq> NaN \<and> \<not> js_gt b a"

definition js_le :: "jsnum \<Rightarrow> jsnum \<Rightarrow> bool" where
  "js_le a b = js_ge b a"

text \<open>
  \<open>Math.min\<close> and \<open>Math.max\<close> of two arguments: \<open>NaN\<close> when one is; \<open>-0\<close> counts as
  less than \<open>+0\<close>.
\<close>

definition Math_min :: "jsnum \<Rightarrow> jsnum \<Rightarrow> jsnum" where
  "Math_min a b =
     (if a = NaN \<or> b = NaN then NaN
      else if js_gt a b then b
      else if js_gt b a then a
      else if is_neg a then a else b)"

definition Math_max :: "jsnum \<Rightarrow> jsnum \<Rightarrow> jsnum" where
  "Math_max a b =
     (if a = NaN \<or> b = NaN then NaN
      else if js_gt b a then b
      else if js_gt a b then a
      else if is_neg a then b else a)"

text \<open>
  \<open>Math.round\<close>: the nearest integer, a tie going up (\<open>Math.round(2.5)\<close> is 3,
  \<open>Math.round(-2.5)\<close> is -2), which is \<^term>\<open>\<lfloor>x + 1 / 2\<rfloor>\<close>.  A result of 0 keeps the
  sign of the argument; the special values and the zeros are returned unchanged.
\<close>

fun Math_round :: "jsnum \<Rightarrow> jsnum" where
  "Math_round (Fin x) =
     (if \<lfloor>x + 1 / 2\<rfloor> = 0 then zero_of (x < 0) else Fin (of_int \<lfloor>x + 1 / 2\<rfloor>))"
| "Math_round a = a"

text \<open>
  \<open>Math.log10\<close>: \<open>NaN\<close> below zero, \<open>-Infinity\<close> at a zero, \<open>+0\<close> at 1.  Elsewhere
  the language leaves the result to the implementation (an approximation of the
  logarithm): \<open>approx\<close>, from a positive real to the number returned, is a parameter.
\<close>

fun Math_log10 :: "(real \<Rightarrow> jsnum) \<Rightarrow> jsnum \<Rightarrow> jsnum" where
  "Math_log10 approx NaN = NaN"
| "Math_log10 approx NegInf = NaN"
| "Math_log10 approx PosInf = PosInf"
| "Math_log10 approx NegZero = NegInf"
| "Math_log10 approx (Fin x) =
     (if x < 0 then NaN else if x = 0 then NegInf else if x = 1 then Fin 0 else approx x)"

text \<open>One implementation of the logarithm: the double nearest to the exact value.\<close>

definition log10_nearest :: "real \<Rightarrow> jsnum" where
  "log10_nearest x = round_double False (log 10 x)"

text \<open>
  A decimal literal of the source, such as \<open>0.33\<close>, denotes the double nearest to it.
  Literals that are doubles themselves (\<open>150\<close>, \<open>0.5\<close>, \<open>1.5\<close>) are written \<open>Fin\<close>.
\<close>

definition js_literal :: "real \<Rightarrow> jsnum" where
  "js_literal r = round_double False r"

text \<open>
  The operators of the source are written with the usual symbols.  Only the syntactic
  classes are instantiated: no law of a field or of an order is assumed of these
  operations (with \<open>NaN\<close> about, \<open>a \<le> a\<close> may be false).  The class of \<open>/\<close>
  asks for a reciprocal as well, which is \<open>1 / a\<close>.
\<close>

instantiation jsnum :: "{plus, minus, times, inverse, ord}"
begin

definition plus_jsnum :: "jsnum \<Rightarrow> jsnum \<Rightarrow> jsnum" where
  "plus_jsnum a b = js_add a b"

definition minus_jsnum :: "jsnum \<Rightarrow> jsnum \<Rightarrow> jsnum" where
  "minus_jsnum a b = js_sub a b"

definition times_jsnum :: "jsnum \<Rightarrow> jsnum \<Rightarrow> jsnum" where
  "times_jsnum a b = js_mul a b"

definition divide_jsnum :: "jsnum \<Rightarrow> jsnum \<Rightarrow> jsnum" where
  "divide_jsnum a b = js_div a b"

definition inverse_jsnum :: "jsnum \<Rightarrow> jsnum" where
  "inverse_jsnum a = js_div (Fin 1) a"

definition less_jsnum :: "jsnum \<Rightarrow> jsnum \<Rightarrow> bool" where
  "less_jsnum a b = js_gt b a"

definition less_eq_jsnum :: "jsnum \<Rightarrow> jsnum \<Rightarrow> bool" where
  "less_eq_jsnum a b = js_le a b"

instance ..

end

section \<open>The four no-show calculators\<close>

text \<open>
  The repository holds four versions of the no-show calculator, each a React component
  with its own state.  The components repeat the names of their fields, so a field
  is written with its record's name where two records have it
  (\<open>page_results.appointmentsSaved\<close>).  A component's \<open>calculateROI\<close> reads the
  \<open>inputs\<close> of the state and ends in \<open>setResults\<close>: it is a function from the state
  to the state with the new \<open>results\<close>.  The source evaluates \<open>a * b * c\<close> and
  \<open>a + b + c\<close> from the left, as the terms below do.
\<close>

subsection \<open>The standalone \<open>ROICalculator\<close>\<close>

text \<open>
  The smallest version (file \<open>unnamed/part_007\<close>) keeps five state variables and
  computes three figures while it renders.
\<close>

record roicalculator_state =
  centerSize :: string
  annualVisits :: jsnum
  noShowRate :: jsnum
  revenuePerVisit :: jsnum
  expectedReduction :: jsnum

record roicalculator_metrics =
  appointmentsSaved :: jsnum
  directRevenue :: jsnum
  totalBenefit :: jsnum

definition ROICalculator :: "roicalculator_state \<Rightarrow> roicalculator_metrics" where
  "ROICalculator s =
     (let appointmentsSaved' =
            Math_round (annualVisits s * (noShowRate s / Fin 100) * (expectedReduction s / Fin 100));
          directRevenue' = appointmentsSaved' * revenuePerVisit s;
          totalBenefit' = directRevenue' * js_literal (22 / 10)
      in \<lparr> appointmentsSaved = appointmentsSaved',
           directRevenue = directRevenue',
           totalBenefit = totalBenefit' \<rparr>)"

subsection \<open>\<open>SimpleROICalculator\<close>\<close>

text \<open>
  This version (file \<open>unnamed/part_001\<close>) stores the two rates as decimals (0.25 for
  25 percent): its input handler divides what the form holds by 100 before it stores
  it.  \<open>centerSize\<close> starts as a string and holds whatever the handler parsed afterwards.
\<close>

datatype jsvalue = Str string | Num jsnum

record simple_inputs =
  centerSize :: jsvalue
  annualVisits :: jsnum
  currentNoShowRate :: jsnum
  revenuePerVisit :: jsnum
  expectedNoShowReduction :: jsnum
  implementationCost :: jsnum
  annualMaintenanceCost :: jsnum

record simple_results =
  appointmentsSaved :: jsnum
  directRevenue :: jsnum
  providerProductivity :: jsnum
  frontDeskEfficiency :: jsnum
  reducedOvertime :: jsnum
  improvedCollections :: jsnum
  payerMixOptimization :: jsnum
  patientRetention :: jsnum
  totalAnnualBenefit :: jsnum
  firstYearROI :: jsnum
  threeYearROI :: jsnum
  fiveYearROI :: jsnum
  paybackMonths :: jsnum

record simple_state =
  inputs :: simple_inputs
  results :: simple_results

definition simple_calculateROI :: "simple_state \<Rightarrow> simple_state" where
  "simple_calculateROI s =
     (let i = inputs s;
          appointmentsSaved' = Math_round (annualVisits i * currentNoShowRate i * expectedNoShowReduction i);
          directRevenue' = appointmentsSaved' * revenuePerVisit i;
          providerHourlyCost = Fin 150;
          avgApptLength = Fin (1 / 2);
          providerProductivity' = appointmentsSaved' * avgApptLength * providerHourlyCost;
          staffHourlyCost = Fin 25;
          frontDeskTimePerNoShow = js_literal (33 / 100);
          frontDeskEfficiency' = appointmentsSaved' * frontDeskTimePerNoShow * staffHourlyCost;
          estimatedStaffFTE = annualVisits i / Fin 2500;
          otReductionHours = estimatedStaffFTE * Fin 2 * expectedNoShowReduction i;
          reducedOvertime' = otReductionHours * staffHourlyCost * Fin (3 / 2);
          collectionRateImprovement = js_literal (5 / 100);
          improvedCollections' = annualVisits i * revenuePerVisit i * collectionRateImprovement;
          payerMixImprovement = js_literal (3 / 100);
          payerMixOptimization' = annualVisits i * revenuePerVisit i * payerMixImprovement;
          patientRetentionValue = Fin 100;
          patientsRetained = annualVisits i / Fin 4 * expectedNoShowReduction i * js_literal (2 / 10);
          patientRetention' = patientsRetained * patientRetentionValue;
          totalAnnualBenefit' =
            directRevenue' + providerProductivity' + frontDeskEfficiency' +
            reducedOvertime' + improvedCollections' + payerMixOptimization' +
            patientRetention';
          totalFirstYearCost = implementationCost i + annualMaintenanceCost i;
          firstYearROI' = (totalAnnualBenefit' - totalFirstYearCost) / totalFirstYearCost;
          totalThreeYearCost = implementationCost i + (annualMaintenanceCost i * Fin 3);
          threeYearROI' = ((totalAnnualBenefit' * Fin 3) - totalThreeYearCost) / totalThreeYearCost;
          totalFiveYearCost = implementationCost i + (annualMaintenanceCost i * Fin 5);
          fiveYearROI' = ((totalAnnualBenefit' * Fin 5) - totalFiveYearCost) / totalFiveYearCost;
          monthlyNetBenefit = (totalAnnualBenefit' - annualMaintenanceCost i) / Fin 12;
          paybackMonths' = implementationCost i / monthlyNetBenefit
      in s\<lparr> results := \<lparr>
            appointmentsSaved = appointmentsSaved',
            directRevenue = directRevenue',
            providerProductivity = providerProductivity',
            frontDeskEfficiency = frontDeskEfficiency',
            reducedOvertime = reducedOvertime',
            improvedCollections = improvedCollections',
            payerMixOptimization = payerMixOptimization',
            patientRetention = patientRetention',
            totalAnnualBenefit = totalAnnualBenefit',
            firstYearROI = firstYearROI',
            threeYearROI = threeYearROI',
            fiveYearROI = fiveYearROI',
            paybackMonths = paybackMonths' \<rparr> \<rparr>)"

subsection \<open>The ROI page\<close>

text \<open>
  The page's calculator (file \<open>src/pages/ROI.js\<close>) stores the rates as percentages and
  divides by 100 where it uses them.  Its payback period is an unguarded division.
\<close>

record page_inputs =
  centerSize :: string
  annualVisits :: jsnum
  currentNoShowRate :: jsnum
  revenuePerVisit :: jsnum
  expectedReduction :: jsnum
  implementationCost :: jsnum
  annualMaintenanceCost :: jsnum

record page_results =
  appointmentsSaved :: jsnum
  directRevenue :: jsnum
  providerProductivity :: jsnum
  frontDeskEfficiency :: jsnum
  reducedOvertime :: jsnum
  improvedCollections :: jsnum
  payerMixOptimization :: jsnum
  patientRetention :: jsnum
  totalAnnualBenefit :: jsnum
  firstYearROI :: jsnum
  threeYearROI :: jsnum
  fiveYearROI :: jsnum
  paybackMonths :: jsnum

record page_state =
  activeCalculator :: string
  inputs :: page_inputs
  results :: page_results

definition page_calculateROI :: "page_state \<Rightarrow> page_state" where
  "page_calculateROI s =
     (let i = inputs s;
          appointmentsSaved' = Math_round (annualVisits i * (currentNoShowRate i / Fin 100) * (expectedReduction i / Fin 100));
          directRevenue' = appointmentsSaved' * revenuePerVisit i;
          providerHourlyCost = Fin 150;
          avgApptLength = Fin (1 / 2);
          providerProductivity' = appointmentsSaved' * avgApptLength * providerHourlyCost;
          staffHourlyCost = Fin 25;
          frontDeskTimePerNoShow = js_literal (33 / 100);
          frontDeskEfficiency' = appointmentsSaved' * frontDeskTimePerNoShow * staffHourlyCost;
          estimatedStaffFTE = annualVisits i / Fin 2500;
          otReductionHours = estimatedStaffFTE * Fin 2 * (expectedReduction i / Fin 100);
          reducedOvertime' = otReductionHours * staffHourlyCost * Fin (3 / 2);
          collectionRateImprovement = js_literal (5 / 100);
          improvedCollections' = annualVisits i * revenuePerVisit i * collectionRateImprovement;
          payerMixImprovement = js_literal (3 / 100);
          payerMixOptimization' = annualVisits i * revenuePerVisit i * payerMixImprovement;
          patientRetentionValue = Fin 100;
          patientsRetained = annualVisits i / Fin 4 * (expectedReduction i / Fin 100) * js_literal (2 / 10);
          patientRetention' = patientsRetained * patientRetentionValue;
          totalAnnualBenefit' =
            directRevenue' + providerProductivity' + frontDeskEfficiency' +
            reducedOvertime' + improvedCollections' + payerMixOptimization' +
            patientRetention';
          totalFirstYearCost = implementationCost i + annualMaintenanceCost i;
          firstYearROI' = (totalAnnualBenefit' - totalFirstYearCost) / totalFirstYearCost;
          totalThreeYearCost = implementationCost i + (annualMaintenanceCost i * Fin 3);
          threeYearROI' = ((totalAnnualBenefit' * Fin 3) - totalThreeYearCost) / totalThreeYearCost;
          totalFiveYearCost = implementationCost i + (annualMaintenanceCost i * Fin 5);
          fiveYearROI' = ((totalAnnualBenefit' * Fin 5) - totalFiveYearCost) / totalFiveYearCost;
          monthlyNetBenefit = (totalAnnualBenefit' - annualMaintenanceCost i) / Fin 12;
          paybackMonths' = implementationCost i / monthlyNetBenefit
      in s\<lparr> results := \<lparr>
            appointmentsSaved = appointmentsSaved',
            directRevenue = directRevenue',
            providerProductivity = providerProductivity',
            frontDeskEfficiency = frontDeskEfficiency',
            reducedOvertime = reducedOvertime',
            improvedCollections = improvedCollections',
            payerMixOptimization = payerMixOptimization',
            patientRetention = patientRetention',
            totalAnnualBenefit = totalAnnualBenefit',
            firstYearROI = firstYearROI',
            threeYearROI = threeYearROI',
            fiveYearROI = fiveYearROI',
            paybackMonths = paybackMonths' \<rparr> \<rparr>)"

subsection \<open>The ROI page with volume pricing\<close>

text \<open>
  A later version of the page (file \<open>unnamed/part_006\<close>) suggests its costs by
  \<open>calculateImplementationCost\<close>: the suggested cost grows with the volume, less a
  discount that follows a logarithmic curve and is capped at \<open>maxDiscount\<close>.  Its first
  argument here is the implementation of the logarithm that \<open>Math.log10\<close> uses.
\<close>

definition calculateImplementationCost ::
  "(real \<Rightarrow> jsnum) \<Rightarrow> jsnum \<Rightarrow> jsnum \<Rightarrow> jsnum \<Rightarrow> jsnum \<Rightarrow> jsnum" where
  "calculateImplementationCost approx volume basePrice volumeFactor maxDiscount =
     (let discount =
            Math_min maxDiscount (Math_log10 approx (volume / Fin 1000) * js_literal (1 / 10))
      in Math_max basePrice (basePrice + (volume * volumeFactor * (Fin 1 - discount))))"

text \<open>
  The state of the page: which calculator is shown, which view of the figures, and the
  no-show calculator's inputs and results.
\<close>

record noshow_inputs =
  annualVisits :: jsnum
  currentNoShowRate :: jsnum
  revenuePerVisit :: jsnum
  expectedReduction :: jsnum
  implementationCost :: jsnum
  annualMaintenanceCost :: jsnum

record roi_figures =
  firstYearROI :: jsnum
  threeYearROI :: jsnum
  fiveYearROI :: jsnum
  paybackMonths :: jsnum

record noshow_results =
  appointmentsSaved :: jsnum
  directRevenue :: jsnum
  providerProductivity :: jsnum
  frontDeskEfficiency :: jsnum
  reducedOvertime :: jsnum
  improvedCollections :: jsnum
  payerMixOptimization :: jsnum
  patientRetention :: jsnum
  totalAnnualBenefit :: jsnum
  directRevenueROI :: roi_figures
  fullBenefitsROI :: roi_figures

record noshow_state =
  activeCalculator :: string
  showFullBenefits :: bool
  inputs :: noshow_inputs
  results :: noshow_results

text \<open>
  \<open>calculateROI\<close> of the no-show calculator reads \<open>inputs\<close> and ends in
  \<open>setResults\<close>.  The payback period is the one place with a guard: the division
  is made only when the yearly benefit is above the yearly maintenance cost.
\<close>

definition calculateROI :: "noshow_state \<Rightarrow> noshow_state" where
  "calculateROI s =
     (let i = inputs s;
          appointmentsSaved' =
            Math_round (annualVisits i * (currentNoShowRate i / Fin 100) * (expectedReduction i / Fin 100));
          directRevenue' = appointmentsSaved' * revenuePerVisit i;
          providerHourlyCost = Fin 150;
          avgApptLength = Fin (1 / 2);
          providerProductivity' = appointmentsSaved' * avgApptLength * providerHourlyCost;
          staffHourlyCost = Fin 25;
          frontDeskTimePerNoShow = js_literal (33 / 100);
          frontDeskEfficiency' = appointmentsSaved' * frontDeskTimePerNoShow * staffHourlyCost;
          estimatedStaffFTE = annualVisits i / Fin 2500;
          otReductionHours = estimatedStaffFTE * Fin 2 * (expectedReduction i / Fin 100);
          reducedOvertime' = otReductionHours * staffHourlyCost * Fin (3 / 2);
          collectionRateImprovement = js_literal (5 / 100);
          improvedCollections' = annualVisits i * revenuePerVisit i * collectionRateImprovement;
          payerMixImprovement = js_literal (3 / 100);
          payerMixOptimization' = annualVisits i * revenuePerVisit i * payerMixImprovement;
          patientRetentionValue = Fin 100;
          patientsRetained = annualVisits i / Fin 4 * (expectedReduction i / Fin 100) * js_literal (2 / 10);
          patientRetention' = patientsRetained * patientRetentionValue;
          totalAnnualBenefit' =
            directRevenue' + providerProductivity' + frontDeskEfficiency' +
            reducedOvertime' + improvedCollections' + payerMixOptimization' +
            patientRetention';
          totalFirstYearCost = implementationCost i + annualMaintenanceCost i;
          directRevenueROI' = \<lparr>
            firstYearROI = (directRevenue' - totalFirstYearCost) / totalFirstYearCost,
            threeYearROI =
              ((directRevenue' * Fin 3) - (implementationCost i + (annualMaintenanceCost i * Fin 3)))
                / (implementationCost i + (annualMaintenanceCost i * Fin 3)),
            fiveYearROI =
              ((directRevenue' * Fin 5) - (implementationCost i + (annualMaintenanceCost i * Fin 5)))
                / (implementationCost i + (annualMaintenanceCost i * Fin 5)),
            paybackMonths =
              (if directRevenue' > annualMaintenanceCost i
               then implementationCost i / ((directRevenue' - annualMaintenanceCost i) / Fin 12)
               else PosInf) \<rparr>;
          fullBenefitsROI' = \<lparr>
            firstYearROI = (totalAnnualBenefit' - totalFirstYearCost) / totalFirstYearCost,
            threeYearROI =
              ((totalAnnualBenefit' * Fin 3) - (implementationCost i + (annualMaintenanceCost i * Fin 3)))
                / (implementationCost i + (annualMaintenanceCost i * Fin 3)),
            fiveYearROI =
              ((totalAnnualBenefit' * Fin 5) - (implementationCost i + (annualMaintenanceCost i * Fin 5)))
                / (implementationCost i + (annualMaintenanceCost i * Fin 5)),
            paybackMonths =
              (if totalAnnualBenefit' > annualMaintenanceCost i
               then implementationCost i / ((totalAnnualBenefit' - annualMaintenanceCost i) / Fin 12)
               else PosInf) \<rparr>
      in s\<lparr> results := \<lparr>
            appointmentsSaved = appointmentsSaved',
            directRevenue = directRevenue',
            providerProductivity = providerProductivity',
            frontDeskEfficiency = frontDeskEfficiency',
            reducedOvertime = reducedOvertime',
            improvedCollections = improvedCollections',
            payerMixOptimization = payerMixOptimization',
            patientRetention = patientRetention',
            totalAnnualBenefit = totalAnnualBenefit',
            directRevenueROI = directRevenueROI',
            fullBenefitsROI = fullBenefitsROI' \<rparr> \<rparr>)"

text \<open>The states the components start in (the arguments of \<open>useState\<close>).\<close>

definition simple_initial_state :: simple_state where
  "simple_initial_state =
     \<lparr> simple_state.inputs =
         \<lparr> simple_inputs.centerSize = Str ''medium'',
           annualVisits = Fin 50000,
           currentNoShowRate = Fin (25 / 100),
           revenuePerVisit = Fin 150,
           expectedNoShowReduction = js_literal (30 / 100),
           implementationCost = Fin 450000,
           annualMaintenanceCost = Fin 95000 \<rparr>,
       results =
         \<lparr> simple_results.appointmentsSaved = Fin 0, directRevenue = Fin 0,
           providerProductivity = Fin 0, frontDeskEfficiency = Fin 0, reducedOvertime = Fin 0,
           improvedCollections = Fin 0, payerMixOptimization = Fin 0, patientRetention = Fin 0,
           totalAnnualBenefit = Fin 0, firstYearROI = Fin 0, threeYearROI = Fin 0,
           fiveYearROI = Fin 0, paybackMonths = Fin 0 \<rparr> \<rparr>"

definition page_initial_state :: page_state where
  "page_initial_state =
     \<lparr> page_state.activeCalculator = ''noshow'',
       inputs =
         \<lparr> page_inputs.centerSize = ''medium'',
           annualVisits = Fin 50000,
           currentNoShowRate = Fin 25,
           revenuePerVisit = Fin 150,
           expectedReduction = Fin 30,
           implementationCost = Fin 450000,
           annualMaintenanceCost = Fin 95000 \<rparr>,
       results =
         \<lparr> page_results.appointmentsSaved = Fin 0, directRevenue = Fin 0,
           providerProductivity = Fin 0, frontDeskEfficiency = Fin 0, reducedOvertime = Fin 0,
           improvedCollections = Fin 0, payerMixOptimization = Fin 0, patientRetention = Fin 0,
           totalAnnualBenefit = Fin 0, firstYearROI = Fin 0, threeYearROI = Fin 0,
           fiveYearROI = Fin 0, paybackMonths = Fin 0 \<rparr> \<rparr>"

definition roicalculator_initial_state :: roicalculator_state where
  "roicalculator_initial_state =
     \<lparr> roicalculator_state.centerSize = ''medium'',
       annualVisits = Fin 50000,
       noShowRate = Fin 25,
       revenuePerVisit = Fin 150,
       expectedReduction = Fin 30 \<rparr>"

definition initial_inputs :: noshow_inputs where
  "initial_inputs =
     \<lparr> annualVisits = Fin 50000,
       currentNoShowRate = Fin 25,
       revenuePerVisit = Fin 150,
       expectedReduction = Fin 30,
       implementationCost = Fin 450000,
       annualMaintenanceCost = Fin 95000 \<rparr>"

definition initial_figures :: roi_figures where
  "initial_figures =
     \<lparr> firstYearROI = Fin 0, threeYearROI = Fin 0, fiveYearROI = Fin 0, paybackMonths = Fin 0 \<rparr>"

definition initial_results :: noshow_results where
  "initial_results =
     \<lparr> appointmentsSaved = Fin 0, directRevenue = Fin 0, providerProductivity = Fin 0,
       frontDeskEfficiency = Fin 0, reducedOvertime = Fin 0, improvedCollections = Fin 0,
       payerMixOptimization = Fin 0, patientRetention = Fin 0, totalAnnualBenefit = Fin 0,
       directRevenueROI = initial_figures, fullBenefitsROI = initial_figures \<rparr>"

definition initial_state :: noshow_state where
  "initial_state =
     \<lparr> activeCalculator = ''noshow'', showFullBenefits = True,
       inputs = initial_inputs, results = initial_results \<rparr>"

text \<open>
  The states after the form has been filled in with visits \<open>v\<close>, a no-show rate \<open>r\<close> and
  an expected reduction \<open>e\<close>, both in percent.  The input handler of
  \<open>SimpleROICalculator\<close> stores the two rates divided by 100; the other components
  store what was entered.
\<close>

definition simple_entered :: "jsnum \<Rightarrow> jsnum \<Rightarrow> jsnum \<Rightarrow> simple_state" where
  "simple_entered v r e =
     simple_initial_state\<lparr> simple_state.inputs :=
       (simple_state.inputs simple_initial_state)
         \<lparr> simple_inputs.annualVisits := v,
           simple_inputs.currentNoShowRate := r / Fin 100,
           expectedNoShowReduction := e / Fin 100 \<rparr> \<rparr>"

definition page_entered :: "jsnum \<Rightarrow> jsnum \<Rightarrow> jsnum \<Rightarrow> page_state" where
  "page_entered v r e =
     page_initial_state\<lparr> page_state.inputs :=
       (page_state.inputs page_initial_state)
         \<lparr> page_inputs.annualVisits := v,
           page_inputs.currentNoShowRate := r,
           page_inputs.expectedReduction := e \<rparr> \<rparr>"

definition entered :: "jsnum \<Rightarrow> jsnum \<Rightarrow> jsnum \<Rightarrow> noshow_state" where
  "entered v r e =
     initial_state\<lparr> inputs :=
       initial_inputs\<lparr> annualVisits := v, currentNoShowRate := r, expectedReduction := e \<rparr> \<rparr>"

definition roicalculator_entered :: "jsnum \<Rightarrow> jsnum \<Rightarrow> jsnum \<Rightarrow> roicalculator_state" where
  "roicalculator_entered v r e =
     roicalculator_initial_state
       \<lparr> roicalculator_state.annualVisits := v, noShowRate := r,
         roicalculator_state.expectedReduction := e \<rparr>"

text \<open>
  The page with one visit, rates of 100 percent, the least positive double as revenue per
  visit, and no costs.
\<close>

definition underflow_state :: noshow_state where
  "underflow_state =
     initial_state\<lparr> inputs :=
       \<lparr> annualVisits = Fin 1, currentNoShowRate = Fin 100, revenuePerVisit = Fin min_subnormal,
         expectedReduction = Fin 100, implementationCost = Fin 0, annualMaintenanceCost = Fin 0 \<rparr> \<rparr>"

section \<open>The training pipeline\<close>

text \<open>
  The repository's README files name the Python modules of the readmission pipeline
  (\<open>data_processing.py\<close>, \<open>feature_extraction.py\<close>, \<open>model_training.py\<close>,
  \<open>evaluation.py\<close>, \<open>run_pipeline.py\<close>); none of them is among the sources, which
  hold the shell scripts that start them and the summaries they wrote.  The label
  constructor and the dataset assembler of this section are therefore written from the
  specification (its sections 3, 4.2 and 4.4), step by step in the order it gives.
  Timestamps are integers, counted in days.
\<close>

subsection \<open>Data model\<close>

text \<open>
  Modelled from the spec: the case table of the missing cohort extractor.  A case has
  \<open>case_id\<close> (unique), \<open>subject_id\<close>, \<open>index_time\<close> and \<open>outcome_window_end\<close>.
\<close>

record prediction_case =
  case_id :: nat
  subject_id :: nat
  index_time :: int
  outcome_window_end :: int

text \<open>
  Modelled from the spec: \<open>outcome_window_end\<close> is \<open>index_time\<close> plus a fixed horizon;
  for an admission the index time is the discharge and the horizon is the readmission
  window (30 days unless configured otherwise).
\<close>

definition admission_case :: "int \<Rightarrow> nat \<Rightarrow> nat \<Rightarrow> int \<Rightarrow> prediction_case" where
  "admission_case readmission_window cid sid discharge =
     \<lparr> case_id = cid, subject_id = sid, index_time = discharge,
       outcome_window_end = discharge + readmission_window \<rparr>"

text \<open>
  Modelled from the spec: the types of the events of the missing event log (diagnosis,
  medication order, lab result, appointment, admission).  A transfer that continues an
  encounter is an event of a type of its own.
\<close>

datatype event_type =
  Diagnosis | MedicationOrder | LabResult | Appointment | Admission | Transfer

text \<open>
  Modelled from the spec: an event of the missing event log, with \<open>subject_id\<close>,
  \<open>event_time\<close>, \<open>event_type\<close> and \<open>payload\<close>.  The payload is reduced to what the
  label rule reads: the identifier of the encounter the event records, which for the
  index event of a case is the case's \<open>case_id\<close>.
\<close>

record event =
  subject_id :: nat
  event_time :: int
  event_type :: event_type
  payload :: nat

text \<open>
  Modelled from the spec: a row of the label table, with \<open>case_id\<close>, \<open>label\<close> and
  \<open>label_known\<close>.
\<close>

record label_row =
  case_id :: nat
  label :: bool
  label_known :: bool

text \<open>
  Modelled from the spec: a feature value of the missing feature extractor, numeric or
  categorical.
\<close>

datatype feature_value = Numeric int | Categorical string

text \<open>
  Modelled from the spec: a feature vector maps a \<open>case_id\<close> to an ordered mapping of
  named values; a value may be missing.
\<close>

record feature_row =
  case_id :: nat
  features :: "(string \<times> feature_value option) list"

text \<open>
  Modelled from the spec: the feature schema declares, in order, each feature's name and
  imputation default (the default's constructor gives the type).
\<close>

record feature_decl =
  feature_name :: string
  imputation_default :: feature_value

subsection \<open>Label constructor\<close>

text \<open>
  Modelled from the spec: the readmission rule of the missing label constructor.  A
  follow-up event qualifies when it is an admission of the same subject, other than the
  index event itself, with \<open>event_time\<close> in \<open>(index_time, outcome_window_end]\<close>.
\<close>

definition qualifying :: "prediction_case \<Rightarrow> event \<Rightarrow> bool" where
  "qualifying c e \<longleftrightarrow>
     event.subject_id e = prediction_case.subject_id c \<and>
     event_type e = Admission \<and>
     payload e \<noteq> prediction_case.case_id c \<and>
     index_time c < event_time e \<and>
     event_time e \<le> outcome_window_end c"

text \<open>
  Modelled from the spec: the missing label constructor.  The label is positive once any
  qualifying event exists; \<open>label_known\<close> is false when the outcome window ends after
  the data horizon.
\<close>

definition construct_label :: "int \<Rightarrow> event list \<Rightarrow> prediction_case \<Rightarrow> label_row" where
  "construct_label horizon events c =
     \<lparr> label_row.case_id = prediction_case.case_id c,
       label = list_ex (qualifying c) events,
       label_known = (outcome_window_end c \<le> horizon) \<rparr>"

text \<open>
  Modelled from the spec: the label table of the missing label constructor, one row for
  each case of the cohort.
\<close>

definition label_constructor :: "int \<Rightarrow> event list \<Rightarrow> prediction_case list \<Rightarrow> label_row list" where
  "label_constructor horizon events cases = map (construct_label horizon events) cases"

subsection \<open>Dataset assembler\<close>

text \<open>
  Modelled from the spec: the configuration of the missing split, proportions in percent
  (70 and 15 by default, the rest for the test partition) and the random seed.
\<close>

record split_config =
  train_percent :: nat
  validation_percent :: nat
  seed :: nat

text \<open>Modelled from the spec: the names of the partitions of the missing split.\<close>

datatype partition_name = Train | Validation | Test

text \<open>
  Modelled from the spec: the seedable pseudo-random assignment keyed by \<open>subject_id\<close>.
  The specification names no generator: \<open>prng\<close>, from the seed and the subject to a
  number, is a parameter.
\<close>

definition assign_partition :: "(nat \<Rightarrow> nat \<Rightarrow> nat) \<Rightarrow> split_config \<Rightarrow> nat \<Rightarrow> partition_name" where
  "assign_partition prng cfg sid =
     (let u = prng (seed cfg) sid mod 100
      in if u < train_percent cfg then Train
         else if u < train_percent cfg + validation_percent cfg then Validation
         else Test)"

text \<open>
  Modelled from the spec: a row of a matrix the missing assembler writes, a column for
  each declared feature and the label column.
\<close>

record dataset_row =
  case_id :: nat
  subject_id :: nat
  feature_values :: "feature_value list"
  label :: bool

text \<open>
  Modelled from the spec: the output of the missing assembler, one matrix for each
  partition and the shared feature schema.
\<close>

record dataset =
  schema :: "feature_decl list"
  train :: "dataset_row list"
  validation :: "dataset_row list"
  test :: "dataset_row list"

text \<open>
  Modelled from the spec: the schema-mismatch error of the missing assembler, with the
  case and the declared column its feature vector lacks.
\<close>

datatype assembler_error = SchemaMismatch nat string

text \<open>
  Modelled from the spec: the inner join on \<open>case_id\<close>.  A case is kept when it has a
  feature vector and a label.
\<close>

definition join_case ::
  "feature_row list \<Rightarrow> label_row list \<Rightarrow> prediction_case
     \<Rightarrow> (prediction_case \<times> feature_row \<times> label_row) option" where
  "join_case fvs labels c =
     (case find (\<lambda>f. feature_row.case_id f = prediction_case.case_id c) fvs of
        None \<Rightarrow> None
      | Some f \<Rightarrow>
          (case find (\<lambda>l. label_row.case_id l = prediction_case.case_id c) labels of
             None \<Rightarrow> None
           | Some l \<Rightarrow> Some (c, f, l)))"

text \<open>
  Modelled from the spec: the schema check of the missing assembler on one feature
  vector, the first declared column the vector lacks.
\<close>

definition missing_column :: "feature_decl list \<Rightarrow> feature_row \<Rightarrow> string option" where
  "missing_column sch f =
     map_option feature_name
       (find (\<lambda>d. feature_name d \<notin> fst ` set (features f)) sch)"

text \<open>
  Modelled from the spec: the imputation of the missing assembler, a missing value
  taking the declared default.
\<close>

definition impute_row :: "feature_decl list \<Rightarrow> feature_row \<Rightarrow> feature_value list" where
  "impute_row sch f =
     map (\<lambda>d. case map_of (features f) (feature_name d) of
                 Some (Some v) \<Rightarrow> v
               | _ \<Rightarrow> imputation_default d) sch"

text \<open>
  Modelled from the spec: the schema check of the missing assembler on all rows, the
  error of the first row that lacks a column.
\<close>

definition first_mismatch ::
  "feature_decl list \<Rightarrow> (prediction_case \<times> feature_row \<times> label_row) list
     \<Rightarrow> assembler_error option" where
  "first_mismatch sch known =
     (case List.map_filter
             (\<lambda>(c, f, l). map_option (SchemaMismatch (prediction_case.case_id c))
                            (missing_column sch f)) known of
        [] \<Rightarrow> None
      | e # es \<Rightarrow> Some e)"

text \<open>
  Modelled from the spec: the first two steps of the missing dataset assembler, the join
  and the drop of the cases whose label is not known.
\<close>

definition labelled_cases ::
  "feature_row list \<Rightarrow> label_row list \<Rightarrow> prediction_case list
     \<Rightarrow> (prediction_case \<times> feature_row \<times> label_row) list" where
  "labelled_cases fvs labels cases =
     filter (\<lambda>(c, f, l). label_known l) (List.map_filter (join_case fvs labels) cases)"

text \<open>Modelled from the spec: the matrix row of a joined case, missing values imputed.\<close>

definition matrix_row ::
  "feature_decl list \<Rightarrow> prediction_case \<times> feature_row \<times> label_row \<Rightarrow> dataset_row" where
  "matrix_row sch = (\<lambda>(c, f, l).
     \<lparr> dataset_row.case_id = prediction_case.case_id c,
       subject_id = prediction_case.subject_id c,
       feature_values = impute_row sch f,
       label = label_row.label l \<rparr>)"

text \<open>Modelled from the spec: the rows whose subject is assigned to a partition.\<close>

definition partition_rows ::
  "(nat \<Rightarrow> nat \<Rightarrow> nat) \<Rightarrow> split_config \<Rightarrow> partition_name \<Rightarrow> dataset_row list
     \<Rightarrow> dataset_row list" where
  "partition_rows prng cfg n rows =
     filter (\<lambda>r. assign_partition prng cfg (dataset_row.subject_id r) = n) rows"

text \<open>
  Modelled from the spec: the missing dataset assembler.  Join, drop the cases whose
  label is not known, check the schema (a mismatch is an error), impute, and split by
  subject.
\<close>

definition assemble ::
  "(nat \<Rightarrow> nat \<Rightarrow> nat) \<Rightarrow> split_config \<Rightarrow> feature_decl list \<Rightarrow> prediction_case list
     \<Rightarrow> feature_row list \<Rightarrow> label_row list \<Rightarrow> assembler_error + dataset" where
  "assemble prng cfg sch cases fvs labels =
     (let known = labelled_cases fvs labels cases
      in case first_mismatch sch known of
           Some e \<Rightarrow> Inl e
         | None \<Rightarrow>
             (let rows = map (matrix_row sch) known
              in Inr \<lparr> schema = sch,
                       train = partition_rows prng cfg Train rows,
                       validation = partition_rows prng cfg Validation rows,
                       test = partition_rows prng cfg Test rows \<rparr>))"

text \<open>
  The rows of a named partition, the case ids of a list of rows, and the partitions
  that hold a row of a given subject.
\<close>

definition rows_of :: "dataset \<Rightarrow> partition_name \<Rightarrow> dataset_row list" where
  "rows_of d n = (case n of Train \<Rightarrow> train d | Validation \<Rightarrow> validation d | Test \<Rightarrow> test d)"

definition case_ids :: "dataset_row list \<Rightarrow> nat set" where
  "case_ids rows = dataset_row.case_id ` set rows"

definition partitions_of_subject :: "dataset \<Rightarrow> nat \<Rightarrow> partition_name list" where
  "partitions_of_subject d s =
     filter (\<lambda>n. list_ex (\<lambda>r. dataset_row.subject_id r = s) (rows_of d n))
       [Train, Validation, Test]"

text \<open>The rows the assembler splits: the labelled cases as matrix rows.\<close>

definition assembled_rows ::
  "feature_decl list \<Rightarrow> prediction_case list \<Rightarrow> feature_row list \<Rightarrow> label_row list
     \<Rightarrow> dataset_row list" where
  "assembled_rows sch cases fvs labels = map (matrix_row sch) (labelled_cases fvs labels cases)"

subsection \<open>A small cohort\<close>

text \<open>
  Five admissions of four subjects under a 30-day window, with data up to day 200: the
  subject of case 1 is admitted again ten days after the discharge, the follow-up of
  case 3 is a transfer, and the window of case 4 ends after the horizon.
\<close>

definition example_cases :: "prediction_case list" where
  "example_cases =
     [admission_case 30 1 10 100, admission_case 30 2 10 150, admission_case 30 3 20 120,
      admission_case 30 4 30 190, admission_case 30 5 15 100]"

definition example_events :: "event list" where
  "example_events =
     [\<lparr> event.subject_id = 10, event_time = 96, event_type = Admission, payload = 1 \<rparr>,
      \<lparr> event.subject_id = 10, event_time = 110, event_type = Admission, payload = 2 \<rparr>,
      \<lparr> event.subject_id = 20, event_time = 115, event_type = Admission, payload = 3 \<rparr>,
      \<lparr> event.subject_id = 20, event_time = 125, event_type = Transfer, payload = 3 \<rparr>,
      \<lparr> event.subject_id = 30, event_time = 180, event_type = Admission, payload = 4 \<rparr>,
      \<lparr> event.subject_id = 30, event_time = 195, event_type = Admission, payload = 6 \<rparr>,
      \<lparr> event.subject_id = 15, event_time = 90, event_type = Admission, payload = 5 \<rparr>,
      \<lparr> event.subject_id = 15, event_time = 145, event_type = Admission, payload = 7 \<rparr>]"

definition example_schema :: "feature_decl list" where
  "example_schema =
     [\<lparr> feature_name = ''prior_admissions'', imputation_default = Numeric 0 \<rparr>,
      \<lparr> feature_name = ''admission_type'', imputation_default = Categorical ''unknown'' \<rparr>]"

definition example_features :: "feature_row list" where
  "example_features =
     map (\<lambda>k. \<lparr> feature_row.case_id = k,
                features = [(''prior_admissions'', if k = 2 then Some (Numeric 1) else None),
                            (''admission_type'', Some (Categorical ''emergency''))] \<rparr>)
       [1, 2, 3, 4, 5]"

definition example_config :: split_config where
  "example_config = \<lparr> train_percent = 70, validation_percent = 15, seed = 42 \<rparr>"

definition example_prng :: "nat \<Rightarrow> nat \<Rightarrow> nat" where
  "example_prng sd sid = sd + 3 * sid"

definition example_dataset :: dataset where
  "example_dataset =
     \<lparr> schema = example_schema,
       train =
         [\<lparr> dataset_row.case_id = 3, subject_id = 20,
            feature_values = [Numeric 0, Categorical ''emergency''], label = False \<rparr>],
       validation =
         [\<lparr> dataset_row.case_id = 1, subject_id = 10,
            feature_values = [Numeric 0, Categorical ''emergency''], label = True \<rparr>,
          \<lparr> dataset_row.case_id = 2, subject_id = 10,
            feature_values = [Numeric 1, Categorical ''emergency''], label = False \<rparr>],
       test =
         [\<lparr> dataset_row.case_id = 5, subject_id = 15,
            feature_values = [Numeric 0, Categorical ''emergency''], label = False \<rparr>] \<rparr>"

section \<open>Properties of the numbers\<close>

lemmas jsnum_ops =
  plus_jsnum_def minus_jsnum_def times_jsnum_def divide_jsnum_def
  less_jsnum_def less_eq_jsnum_def js_sub_def js_ge_def js_le_def

lemmas js_defs = js_add_def js_mul_def js_div_def js_gt_def

lemmas initial_defs =
  initial_state_def initial_inputs_def initial_results_def initial_figures_def

subsection \<open>Rounding to a double\<close>

lemma min_subnormal_pos: "0 < min_subnormal"
  by (simp add: min_subnormal_def)

lemma min_normal_pos: "0 < min_normal"
  by (simp add: min_normal_def)

lemma floor_log2_eqI:
  assumes "2 powi e \<le> x" and "x < 2 powi (e + 1)"
  shows "\<lfloor>log 2 x\<rfloor> = e"
proof -
  have "(0::real) < 2 powi e" by (rule zero_less_power_int) simp
  with assms(1) have pos: "0 < x" by linarith
  have "2 powr (of_int e) \<le> x" "x < 2 powr (of_int (e + 1))"
    using assms by (simp_all only: powr_real_of_int' [of 2, simplified])
  then show ?thesis using pos by (simp add: floor_log_eq_powr_iff)
qed

lemma powi_floor_log2_le:
  assumes "0 < x"
  shows "2 powi \<lfloor>log 2 x\<rfloor> \<le> x"
proof -
  have "\<lfloor>log 2 x\<rfloor> = \<lfloor>log 2 x\<rfloor>" ..
  then have "2 powr (of_int \<lfloor>log 2 x\<rfloor>) \<le> x"
    using assms by (simp only: floor_log_eq_powr_iff [of x 2, simplified])
  then show ?thesis by (simp only: powr_real_of_int' [of 2, simplified])
qed

lemma lt_powi_floor_log2:
  assumes "0 < x"
  shows "x < 2 powi (\<lfloor>log 2 x\<rfloor> + 1)"
proof -
  have "x < 2 powr (of_int (\<lfloor>log 2 x\<rfloor> + 1))"
    using floor_log_eq_powr_iff [of x 2 "\<lfloor>log 2 x\<rfloor>"] assms by simp
  moreover have "(2::real) powr (of_int (\<lfloor>log 2 x\<rfloor> + 1)) = 2 powi (\<lfloor>log 2 x\<rfloor> + 1)"
    by (rule powr_real_of_int') simp_all
  ultimately show ?thesis by simp
qed

lemma floor_log2_ge:
  assumes "2 powi e \<le> x"
  shows "e \<le> \<lfloor>log 2 x\<rfloor>"
proof -
  have p: "(0::real) < 2 powi e" by (rule zero_less_power_int) simp
  with assms have pos: "0 < x" by linarith
  have "log 2 (2 powi e) \<le> log 2 x" using assms p pos by simp
  moreover have "log 2 (2 powi e) = of_int e"
    by (simp add: log_powr flip: powr_real_of_int' [of 2, simplified])
  ultimately show ?thesis by (simp add: le_floor_iff)
qed

lemma quantum_pos: "0 < quantum x"
  by (simp add: quantum_def min_subnormal_pos)

lemma quantum_ge: "min_subnormal \<le> quantum x"
proof (cases "\<bar>x\<bar> < min_normal")
  case True
  then show ?thesis by (simp add: quantum_def)
next
  case False
  then have "2 powi (- 1022) \<le> \<bar>x\<bar>" by (simp add: min_normal_def)
  then have "- 1022 \<le> \<lfloor>log 2 \<bar>x\<bar>\<rfloor>" by (rule floor_log2_ge)
  then have "- 1074 \<le> \<lfloor>log 2 \<bar>x\<bar>\<rfloor> - 52" by linarith
  then have "(2::real) powi (- 1074) \<le> 2 powi (\<lfloor>log 2 \<bar>x\<bar>\<rfloor> - 52)"
    by (rule power_int_increasing) simp
  with False show ?thesis by (simp only: quantum_def min_subnormal_def if_False)
qed

lemma quantum_le_abs:
  assumes "min_subnormal \<le> \<bar>x\<bar>"
  shows "quantum x \<le> \<bar>x\<bar>"
proof (cases "\<bar>x\<bar> < min_normal")
  case True
  with assms show ?thesis by (simp add: quantum_def)
next
  case False
  have pos: "0 < \<bar>x\<bar>" using assms min_subnormal_pos by linarith
  have "(2::real) powi (\<lfloor>log 2 \<bar>x\<bar>\<rfloor> - 52) \<le> 2 powi \<lfloor>log 2 \<bar>x\<bar>\<rfloor>"
    by (intro power_int_increasing) simp_all
  also have "\<dots> \<le> \<bar>x\<bar>" using pos by (rule powi_floor_log2_le)
  finally show ?thesis using False by (simp only: quantum_def if_False)
qed

lemma round_half_even_ge_floor: "\<lfloor>x\<rfloor> \<le> round_half_even x"
  by (simp add: round_half_even_def Let_def)

lemma round_half_even_nonneg: "0 \<le> x \<Longrightarrow> 0 \<le> round_half_even x"
  using round_half_even_ge_floor [of x] by (smt (verit) zero_le_floor)

lemma round_half_even_pos: "1 \<le> x \<Longrightarrow> 1 \<le> round_half_even x"
  using round_half_even_ge_floor [of x] by (smt (verit) one_le_floor)

lemma round_double_cases:
  "round_double neg x = NegZero \<or> round_double neg x = NegInf \<or> round_double neg x = PosInf \<or>
   (\<exists>m. round_double neg x = Fin m)"
  by (simp add: round_double_def Let_def zero_of_def inf_of_def)

lemma round_double_not_NaN [simp]: "round_double neg x \<noteq> NaN"
  by (simp add: round_double_def Let_def zero_of_def inf_of_def)

lemma round_double_of_pos:
  assumes "0 < x"
  shows "round_double neg x = PosInf \<or> (\<exists>m. 0 \<le> m \<and> round_double neg x = Fin m)"
proof -
  have "0 \<le> \<bar>x\<bar> / quantum x" using quantum_pos [of x] by simp
  then have "0 \<le> round_half_even (\<bar>x\<bar> / quantum x)" by (rule round_half_even_nonneg)
  then have "0 \<le> of_int (round_half_even (\<bar>x\<bar> / quantum x)) * quantum x"
    using quantum_pos [of x] by simp
  with assms show ?thesis
    by (auto simp: round_double_def Let_def zero_of_def inf_of_def)
qed

lemma round_double_of_grid_pos:
  assumes "min_subnormal \<le> x"
  shows "round_double neg x = PosInf \<or> (\<exists>m. 0 < m \<and> round_double neg x = Fin m)"
proof -
  have x: "0 < x" using assms min_subnormal_pos by linarith
  then have "quantum x \<le> x" using quantum_le_abs [of x] assms by simp
  then have "1 \<le> \<bar>x\<bar> / quantum x" using quantum_pos [of x] x by simp
  then have "1 \<le> round_half_even (\<bar>x\<bar> / quantum x)" by (rule round_half_even_pos)
  then have "0 < of_int (round_half_even (\<bar>x\<bar> / quantum x)) * quantum x"
    using quantum_pos [of x] by simp
  with x show ?thesis
    by (auto simp: round_double_def Let_def zero_of_def inf_of_def)
qed

lemma double_grid_iff: "double_grid x \<longleftrightarrow> x / min_subnormal \<in> \<int>"
  by (auto simp: double_grid_def Ints_def)

lemma double_grid_0 [simp]: "double_grid 0"
  by (simp add: double_grid_iff)

lemma double_grid_minus: "double_grid x \<Longrightarrow> double_grid (- x)"
  by (simp add: double_grid_iff)

lemma double_grid_diff: "double_grid x \<Longrightarrow> double_grid y \<Longrightarrow> double_grid (x - y)"
  by (simp add: double_grid_iff diff_divide_distrib)

lemma double_grid_pos_ge:
  assumes "double_grid x" and "0 < x"
  shows "min_subnormal \<le> x"
proof -
  from assms(1) obtain n :: int where n: "x / min_subnormal = of_int n"
    by (auto simp: double_grid_iff Ints_def)
  with assms(2) min_subnormal_pos have "0 < (of_int n :: real)"
    by (metis divide_pos_pos)
  then have "1 \<le> (of_int n :: real)" by simp
  then have "1 * min_subnormal \<le> of_int n * min_subnormal"
    using min_subnormal_pos by (intro mult_right_mono) simp_all
  moreover from n min_subnormal_pos have "x = of_int n * min_subnormal"
    by (simp add: field_simps)
  ultimately show ?thesis by simp
qed

lemma quantum_grid: "quantum x / min_subnormal \<in> \<int>"
proof (cases "\<bar>x\<bar> < min_normal")
  case True
  then show ?thesis using min_subnormal_pos by (simp add: quantum_def)
next
  case False
  then have "2 powi (- 1022) \<le> \<bar>x\<bar>" by (simp add: min_normal_def)
  then have e: "- 1022 \<le> \<lfloor>log 2 \<bar>x\<bar>\<rfloor>" by (rule floor_log2_ge)
  define k where "k = \<lfloor>log 2 \<bar>x\<bar>\<rfloor> - 52 + 1074"
  have k: "0 \<le> k" using e unfolding k_def by linarith
  have eq: "\<lfloor>log 2 \<bar>x\<bar>\<rfloor> - 52 - (- 1074) = k"
    unfolding k_def by linarith
  have "quantum x / min_subnormal = 2 powi (\<lfloor>log 2 \<bar>x\<bar>\<rfloor> - 52) / 2 powi (- 1074)"
    using False by (simp only: quantum_def min_subnormal_def if_False)
  also have "\<dots> = 2 powi (\<lfloor>log 2 \<bar>x\<bar>\<rfloor> - 52 - (- 1074))"
    by (rule power_int_diff [symmetric]) simp
  finally have "quantum x / min_subnormal = 2 powi k"
    by (simp only: eq)
  also have "\<dots> = 2 ^ nat k" using k by (simp add: power_int_def)
  finally show ?thesis by simp
qed

lemma round_double_grid:
  assumes "round_double neg x = Fin m"
  shows "double_grid m"
proof (cases "x = 0")
  case True
  with assms show ?thesis by (simp add: round_double_def zero_of_def split: if_splits)
next
  case False
  define n where "n = round_half_even (\<bar>x\<bar> / quantum x)"
  from assms False have "m = of_int n * quantum x \<or> m = - (of_int n * quantum x) \<or> m = 0"
    by (auto simp: round_double_def Let_def zero_of_def inf_of_def n_def split: if_splits)
  moreover have "of_int n * quantum x / min_subnormal \<in> \<int>"
    using quantum_grid [of x] by (metis Ints_mult Ints_of_int times_divide_eq_right)
  ultimately show ?thesis
    by (auto simp: double_grid_iff)
qed

subsection \<open>Doubles that are computed exactly\<close>

text \<open>
  A rounding is evaluated by naming the binary exponent \<open>e\<close> of the real and the
  significand \<open>n\<close> the rounding gives.
\<close>

lemma round_half_even_le:
  assumes "x \<le> of_int k"
  shows "round_half_even x \<le> k"
proof (cases "x = of_int k")
  case True
  then show ?thesis by (simp add: round_half_even_def)
next
  case False
  with assms have "x < of_int k" by simp
  then have "\<lfloor>x\<rfloor> < k" by (simp add: floor_less_iff)
  then show ?thesis by (simp add: round_half_even_def Let_def)
qed

lemma round_half_even_of_int [simp]: "round_half_even (of_int k) = k"
  by (simp add: round_half_even_def)

lemma round_half_even_numeral [simp]: "round_half_even (numeral k) = numeral k"
  using round_half_even_of_int [of "numeral k"] by simp

lemma round_half_even_1 [simp]: "round_half_even 1 = 1"
  using round_half_even_of_int [of 1] by simp

lemma round_half_even_0 [simp]: "round_half_even 0 = 0"
  using round_half_even_of_int [of 0] by simp

lemma round_double_posI:
  assumes x: "0 < x" and lo: "2 powi e \<le> x" and hi: "x < 2 powi (e + 1)"
    and e: "- 1022 \<le> e" "e \<le> 1022"
    and n: "round_half_even (x / 2 powi (e - 52)) = n"
    and m: "of_int n * 2 powi (e - 52) = m"
  shows "round_double neg x = Fin m"
proof -
  let ?q = "(2::real) powi (e - 52)"
  have qpos: "0 < ?q" by (rule zero_less_power_int) simp
  have "(2::real) powi (- 1022) \<le> 2 powi e" using e(1) by (rule power_int_increasing) simp
  with lo have 1: "\<not> \<bar>x\<bar> < min_normal" using x by (simp add: min_normal_def)
  have "\<lfloor>log 2 x\<rfloor> = e" using lo hi by (rule floor_log2_eqI)
  with 1 x have q: "quantum x = ?q" by (simp add: quantum_def)
  have "(2::real) powi (52 + (e - 52)) = 2 powi 52 * ?q"
    by (rule power_int_add) simp
  then have split: "(2::real) powi e = 2 powi 52 * ?q" by simp
  have "(2::real) powi (53 + (e - 52)) = 2 powi 53 * ?q"
    by (rule power_int_add) simp
  moreover have "53 + (e - 52) = e + 1" by simp
  ultimately have split': "(2::real) powi (e + 1) = 2 powi 53 * ?q" by (simp only:)
  have "2 powi 52 \<le> x / ?q" using lo qpos by (simp add: split pos_le_divide_eq)
  then have "of_int (2 ^ 52) \<le> x / ?q" by simp
  then have "2 ^ 52 \<le> \<lfloor>x / ?q\<rfloor>" by (simp only: le_floor_iff)
  with round_half_even_ge_floor [of "x / ?q"] n have nlo: "2 ^ 52 \<le> n" by linarith
  have "x / ?q \<le> 2 powi 53" using hi qpos by (simp add: split' pos_divide_le_eq)
  then have "x / ?q \<le> of_int (2 ^ 53)" by simp
  then have "round_half_even (x / ?q) \<le> 2 ^ 53" by (rule round_half_even_le)
  with n have nhi: "n \<le> 2 ^ 53" by simp
  have "(0::int) < 2 ^ 52" by simp
  with nlo have npos: "0 < n" by linarith
  have mpos: "0 < m" using npos qpos m by (metis of_int_0_less_iff mult_pos_pos)
  have "m \<le> of_int (2 ^ 53) * ?q"
    unfolding m [symmetric] using nhi qpos by (intro mult_right_mono) (simp_all flip: of_int_le_iff)
  also have "\<dots> = 2 powi (e + 1)" by (simp add: split')
  also have "\<dots> \<le> 2 powi 1023" using e(2) by (intro power_int_increasing) simp_all
  also have "\<dots> < overflow_bound" by (simp add: overflow_bound_def)
  finally have "m < overflow_bound" .
  with x q n m mpos show ?thesis
    by (simp add: round_double_def Let_def)
qed

lemma round_double_subnormalI:
  assumes x: "0 < x" and sub: "x < min_normal"
    and n: "round_half_even (x / min_subnormal) = n"
  shows "round_double neg x = (if n = 0 then Fin 0 else Fin (of_int n * min_subnormal))"
proof -
  have q: "quantum x = min_subnormal" using x sub by (simp add: quantum_def)
  have "min_normal = of_int (2 ^ 52) * min_subnormal"
    by (simp add: min_normal_def min_subnormal_def)
  with sub have "x / min_subnormal \<le> of_int (2 ^ 52)"
    using min_subnormal_pos by (simp add: pos_divide_le_eq)
  then have "round_half_even (x / min_subnormal) \<le> 2 ^ 52" by (rule round_half_even_le)
  with n have nhi: "n \<le> 2 ^ 52" by simp
  have "0 \<le> x / min_subnormal" using x min_subnormal_pos by simp
  then have "0 \<le> round_half_even (x / min_subnormal)" by (rule round_half_even_nonneg)
  with n have nlo: "0 \<le> n" by simp
  have "of_int n * min_subnormal \<le> of_int (2 ^ 52) * min_subnormal"
    using nhi min_subnormal_pos by (intro mult_right_mono) (simp_all flip: of_int_le_iff)
  also have "\<dots> < overflow_bound"
    by (simp add: overflow_bound_def min_subnormal_def)
  finally have "of_int n * min_subnormal < overflow_bound" .
  with x q n nlo min_subnormal_pos show ?thesis
    by (auto simp: round_double_def Let_def zero_of_def)
qed

lemma round_double_int:
  assumes "0 < n" and "n \<le> 2 ^ 53"
  shows "round_double neg (of_int n) = Fin (of_int n)"
proof -
  define x :: real where "x = of_int n"
  define e where "e = \<lfloor>log 2 x\<rfloor>"
  have x: "0 < x" "1 \<le> x" using assms(1) by (simp_all add: x_def)
  have lo: "2 powi e \<le> x" unfolding e_def using x(1) by (rule powi_floor_log2_le)
  have "2 powi 0 \<le> x" using x(2) by simp
  then have e0: "0 \<le> e" unfolding e_def by (rule floor_log2_ge)
  have hi: "x < 2 powi (e + 1)" unfolding e_def using x(1) by (rule lt_powi_floor_log2)
  have "x \<le> 2 powi 53" using assms(2) by (simp add: x_def flip: of_int_le_iff)
  with lo have "(2::real) powi e \<le> 2 powi 53" by linarith
  then have e53: "e \<le> 53" by (rule power_int_le_imp_le_exp [rotated]) simp_all
  show ?thesis
  proof (cases "e = 53")
    case True
    with lo \<open>x \<le> 2 powi 53\<close> have "x = 2 powi 53" by simp
    then have xe: "x = 2 ^ 53" by simp
    have "round_double neg x = Fin (of_int (2 ^ 52) * 2 powi (53 - 52))"
      by (rule round_double_posI [where e = 53 and n = "2 ^ 52"]) (simp_all add: xe)
    then show ?thesis by (simp add: x_def [symmetric] xe)
  next
    case False
    with e53 have e52: "e \<le> 52" by simp
    define k where "k = nat (52 - e)"
    have q: "(2::real) powi (e - 52) = 1 / 2 ^ k"
    proof -
      have "e - 52 = - int k" using e52 by (simp add: k_def)
      then show ?thesis by (simp add: power_int_minus_divide)
    qed
    have "round_double neg x = Fin x"
    proof (rule round_double_posI [where e = e and n = "n * 2 ^ k"])
      show "round_half_even (x / 2 powi (e - 52)) = n * 2 ^ k"
      proof -
        have "x / 2 powi (e - 52) = of_int (n * 2 ^ k)" by (simp add: q x_def)
        then show ?thesis by (simp only: round_half_even_of_int)
      qed
      show "of_int (n * 2 ^ k) * 2 powi (e - 52) = x" by (simp add: q x_def)
    qed (use x lo hi e0 e52 in simp_all)
    then show ?thesis by (simp add: x_def)
  qed
qed

lemma round_double_numeral [simp]:
  "numeral k \<le> (2 ^ 53 :: int) \<Longrightarrow> round_double neg (numeral k) = Fin (numeral k)"
  using round_double_int [of "numeral k" neg] by simp

lemma round_double_1 [simp]: "round_double neg 1 = Fin 1"
  using round_double_int [of 1 neg] by simp

lemma round_double_0 [simp]: "round_double neg 0 = zero_of neg"
  by (simp add: round_double_def)

lemma min_subnormal_less_min_normal: "min_subnormal < min_normal"
proof -
  have "min_normal = of_int (2 ^ 52) * min_subnormal"
    by (simp add: min_normal_def min_subnormal_def)
  then show ?thesis using min_subnormal_pos by simp
qed

lemma round_double_min_subnormal [simp]: "round_double neg min_subnormal = Fin min_subnormal"
  using round_double_subnormalI [OF min_subnormal_pos min_subnormal_less_min_normal, of 1 neg]
    min_subnormal_pos by simp

lemma round_double_underflow:
  assumes "2 < k"
  shows "round_double neg (min_subnormal / k) = Fin 0"
proof -
  have pos: "0 < min_subnormal / k" using assms min_subnormal_pos by simp
  have "min_subnormal / k < min_subnormal"
    using assms min_subnormal_pos by (simp add: field_simps)
  then have sub: "min_subnormal / k < min_normal"
    using min_subnormal_less_min_normal by linarith
  have "min_subnormal / k / min_subnormal = 1 / k" using min_subnormal_pos by simp
  moreover have "round_half_even (1 / k) = 0"
  proof -
    have "0 \<le> 1 / k" "1 / k < 1 / 2" using assms by (simp_all add: field_simps)
    then have "\<lfloor>1 / k\<rfloor> = 0" by (intro floor_unique) simp_all
    with \<open>1 / k < 1 / 2\<close> show ?thesis by (simp add: round_half_even_def Let_def)
  qed
  ultimately have "round_half_even (min_subnormal / k / min_subnormal) = 0" by simp
  from round_double_subnormalI [OF pos sub this] show ?thesis by simp
qed

subsection \<open>Roundings that stay finite\<close>

text \<open>
  Rounding does not leave an interval that ends in a power of two, so a real of
  magnitude at most \<open>2 powi 1023\<close> is not rounded to an infinity.
\<close>

lemma quantum_powi:
  assumes "\<bar>y\<bar> \<le> 2 powi k" and "0 \<le> k"
  shows "\<exists>j. quantum y = 2 powi j \<and> j \<le> k"
proof (cases "\<bar>y\<bar> < min_normal")
  case True
  then have "quantum y = 2 powi (- 1074)" by (simp only: quantum_def min_subnormal_def if_True)
  moreover have "- 1074 \<le> k" using assms(2) by linarith
  ultimately show ?thesis by blast
next
  case False
  then have pos: "0 < \<bar>y\<bar>" using min_normal_pos by linarith
  have "(2::real) powi \<lfloor>log 2 \<bar>y\<bar>\<rfloor> \<le> \<bar>y\<bar>" using pos by (rule powi_floor_log2_le)
  also note assms(1)
  finally have le: "(2::real) powi \<lfloor>log 2 \<bar>y\<bar>\<rfloor> \<le> 2 powi k" .
  have "\<lfloor>log 2 \<bar>y\<bar>\<rfloor> \<le> k" by (rule power_int_le_imp_le_exp [OF _ le assms(2)]) simp
  then have "\<lfloor>log 2 \<bar>y\<bar>\<rfloor> - 52 \<le> k" by linarith
  moreover have "quantum y = 2 powi (\<lfloor>log 2 \<bar>y\<bar>\<rfloor> - 52)"
    using False by (simp only: quantum_def if_False)
  ultimately show ?thesis by blast
qed

lemma round_double_bounded:
  assumes y: "\<bar>y\<bar> \<le> 2 powi k" and k: "0 \<le> k" "k \<le> 1023"
  shows "\<not> is_inf (round_double neg y) \<and> \<bar>js_val (round_double neg y)\<bar> \<le> 2 powi k"
proof (cases "y = 0")
  case True
  then show ?thesis by (cases neg) (simp_all add: round_double_def zero_of_def)
next
  case False
  from quantum_powi [OF y k(1)] obtain j where j: "quantum y = 2 powi j" "j \<le> k" by blast
  define n where "n = round_half_even (\<bar>y\<bar> / quantum y)"
  define m where "m = of_int n * quantum y"
  have q: "0 < quantum y" by (rule quantum_pos)
  have split: "(2::real) powi k = 2 powi (k - j) * 2 powi j"
    by (simp flip: power_int_add)
  have "(2::real) powi (k - j) = 2 ^ nat (k - j)" using j(2) by (simp add: power_int_def)
  also have "\<dots> = of_int (2 ^ nat (k - j))" by simp
  finally have int: "(2::real) powi (k - j) = of_int (2 ^ nat (k - j))" .
  have "\<bar>y\<bar> / quantum y \<le> 2 powi k / quantum y"
    using y q by (simp add: divide_right_mono)
  also have "\<dots> = 2 powi (k - j)" unfolding split j(1) by simp
  finally have "\<bar>y\<bar> / quantum y \<le> of_int (2 ^ nat (k - j))" by (simp only: int)
  then have "n \<le> 2 ^ nat (k - j)" unfolding n_def by (rule round_half_even_le)
  then have "(of_int n :: real) \<le> of_int (2 ^ nat (k - j))" by (simp only: of_int_le_iff)
  then have "of_int n \<le> (2::real) powi (k - j)" by (simp only: int)
  then have "m \<le> 2 powi (k - j) * quantum y"
    unfolding m_def using q by (simp add: mult_right_mono)
  then have m_le: "m \<le> 2 powi k" by (simp only: split j(1))
  have "0 \<le> \<bar>y\<bar> / quantum y" using q by simp
  then have "0 \<le> n" unfolding n_def by (rule round_half_even_nonneg)
  then have m_ge: "0 \<le> m" unfolding m_def using q by simp
  have "k < 1024" using k(2) by linarith
  then have "(2::real) powi k < 2 powi 1024" by (rule power_int_strict_increasing) simp
  then have "2 powi k < overflow_bound" by (simp only: overflow_bound_def power_int_numeral)
  with m_le have "m < overflow_bound" by (rule le_less_trans)
  then have "round_double neg y = zero_of (y < 0) \<or> round_double neg y = Fin m \<or>
      round_double neg y = Fin (- m)"
    using False by (auto simp: round_double_def Let_def m_def n_def)
  then show ?thesis using m_le m_ge
    by (elim disjE) (cases "y < 0"; simp add: zero_of_def)+
qed

lemma round_double_Fin_less:
  assumes "round_double neg x = Fin m"
  shows "\<bar>m\<bar> < overflow_bound"
proof -
  define M where "M = of_int (round_half_even (\<bar>x\<bar> / quantum x)) * quantum x"
  have ob: "0 < overflow_bound"
    by (simp only: overflow_bound_def zero_less_power zero_less_numeral)
  have "0 \<le> \<bar>x\<bar> / quantum x" using quantum_pos [of x] by simp
  then have "0 \<le> round_half_even (\<bar>x\<bar> / quantum x)" by (rule round_half_even_nonneg)
  then have M: "0 \<le> M" unfolding M_def using quantum_pos [of x] by simp
  from assms have "m = 0 \<or> (M < overflow_bound \<and> (m = M \<or> m = - M))"
    by (auto simp: round_double_def Let_def zero_of_def inf_of_def M_def split: if_splits)
  with M ob show ?thesis by auto
qed

lemma two_powi_1023: "1 + (2::real) powi 1021 \<le> 2 powi 1023"
proof -
  define P :: real where "P = 2 powi 1021"
  have "(2::real) powi (2 + 1021) = 2 powi 2 * 2 powi 1021" by (rule power_int_add) simp
  moreover have "(2::int) + 1021 = 1023" by simp
  moreover have "(2::real) powi 2 = 4" by simp
  ultimately have a: "(2::real) powi 1023 = 4 * P" by (simp only: P_def)
  have "(2::real) powi 0 \<le> 2 powi 1021" by (rule power_int_increasing) simp_all
  then have b: "1 \<le> P" by (simp only: P_def power_int_0_right)
  from a b have "1 + P \<le> 2 powi 1023" by linarith
  then show ?thesis by (simp only: P_def)
qed

text \<open>
  The logarithm of a positive double lies between -1074 and 1024, and so does the double
  nearest to it.
\<close>

lemma log10_double_bound:
  assumes lo: "min_subnormal \<le> x" and hi: "x < overflow_bound"
  shows "\<bar>log 10 x\<bar> \<le> 2 powi 11"
proof -
  have x: "0 < x" using lo min_subnormal_pos by linarith
  have ms: "min_subnormal = inverse (2 ^ 1074)"
    unfolding min_subnormal_def by (simp only: power_int_minus power_int_numeral)
  have "log 10 (2::real) \<le> log 10 10" by (rule log_mono) simp_all
  then have l2: "log 10 (2::real) \<le> 1" by simp
  have l0: "0 \<le> log 10 (2::real)" by simp
  have "log 10 x \<le> log 10 overflow_bound" using hi x by (intro log_mono) simp_all
  also have "\<dots> = real 1024 * log 10 2"
    unfolding overflow_bound_def by (rule log_nat_power) simp
  also have "\<dots> \<le> real 1024 * 1" using l2 by (intro mult_left_mono) simp_all
  finally have up: "log 10 x \<le> 1024" by simp
  have a: "log 10 min_subnormal \<le> log 10 x"
    using lo min_subnormal_pos by (intro log_mono) simp_all
  have "log 10 ((2::real) ^ 1074) = real 1074 * log 10 2"
    by (rule log_nat_power) simp
  then have b: "log 10 min_subnormal = - (real 1074 * log 10 2)"
    by (simp only: ms log_inverse)
  from b have "log 10 min_subnormal = - (1074 * log 10 2)" by simp
  with a l2 have low: "- 1074 \<le> log 10 x" by linarith
  have "(2::real) powi 11 = 2048" by simp
  with up low show ?thesis by simp
qed

lemma log10_nearest_finite:
  assumes "min_subnormal \<le> x" and "x < overflow_bound"
  shows "log10_nearest x \<noteq> NaN \<and> \<not> is_inf (log10_nearest x) \<and>
         \<bar>js_val (log10_nearest x)\<bar> \<le> 2 powi 1021"
proof -
  from assms have "\<bar>log 10 x\<bar> \<le> 2 powi 11" by (rule log10_double_bound)
  from round_double_bounded [OF this, of False]
  have b: "\<not> is_inf (log10_nearest x)" "\<bar>js_val (log10_nearest x)\<bar> \<le> 2 powi 11"
    by (simp_all add: log10_nearest_def)
  have "(2::real) powi 11 \<le> 2 powi 1021" by (rule power_int_increasing) simp_all
  with b(2) have "\<bar>js_val (log10_nearest x)\<bar> \<le> 2 powi 1021" by (rule order_trans)
  moreover have "log10_nearest x \<noteq> NaN" by (simp only: log10_nearest_def round_double_not_NaN not_False_eq_True)
  ultimately show ?thesis using b(1) by (simp only: simp_thms)
qed

subsection \<open>Operations\<close>

lemma js_add_grid: "double_grid (js_val (a + b))"
proof (cases "\<exists>m. a + b = Fin m")
  case True
  then obtain m where m: "a + b = Fin m" by blast
  then have "round_double (is_neg a \<and> is_neg b) (js_val a + js_val b) = Fin m"
    by (auto simp: jsnum_ops js_add_def split: if_splits)
  then have "double_grid m" by (rule round_double_grid)
  with m show ?thesis by simp
next
  case False
  then show ?thesis by (cases "a + b") simp_all
qed

lemma js_mul_grid: "double_grid (js_val (a * b))"
proof (cases "\<exists>m. a * b = Fin m")
  case True
  then obtain m where m: "a * b = Fin m" by blast
  then have "round_double (is_neg a \<noteq> is_neg b) (js_val a * js_val b) = Fin m"
    by (auto simp: jsnum_ops js_mul_def inf_of_def split: if_splits)
  then have "double_grid m" by (rule round_double_grid)
  with m show ?thesis by simp
next
  case False
  then show ?thesis by (cases "a * b") simp_all
qed

text \<open>
  Gradual underflow: the difference of two doubles is 0 only when they are equal, so
  \<open>a > b\<close> makes \<open>a - b\<close> positive.
\<close>

lemma js_sub_pos:
  assumes a: "double_grid (js_val a)" and b: "double_grid (js_val b)" and gt: "b < a"
  shows "a - b = PosInf \<or> (\<exists>d. 0 < d \<and> a - b = Fin d)"
proof -
  from gt have nn: "a \<noteq> NaN" "b \<noteq> NaN" by (simp_all add: jsnum_ops js_gt_def)
  show ?thesis
  proof (cases "is_inf a \<or> is_inf b")
    case True
    with gt nn show ?thesis
      by (cases a; cases b) (simp_all add: jsnum_ops js_gt_def js_add_def)
  next
    case False
    with gt have lt: "js_val b < js_val a"
      by (auto simp: jsnum_ops js_gt_def split: if_splits)
    have fin: "\<not> is_inf (js_neg b)" "js_neg b \<noteq> NaN" "js_val (js_neg b) = - js_val b"
      using False nn by (cases b; simp)+
    have "double_grid (js_val a - js_val b)" using a b by (rule double_grid_diff)
    then have "min_subnormal \<le> js_val a - js_val b"
      using lt by (intro double_grid_pos_ge) simp_all
    from round_double_of_grid_pos [OF this, of "is_neg a \<and> is_neg (js_neg b)"]
    show ?thesis using False nn fin by (simp add: jsnum_ops js_add_def)
  qed
qed

lemma js_div_pos:
  assumes "x = PosInf \<or> (\<exists>d. 0 < d \<and> x = Fin d)" and "0 < k"
  shows "x / Fin k = PosInf \<or> (\<exists>q. 0 \<le> q \<and> x / Fin k = Fin q)"
proof -
  from assms(1) show ?thesis
  proof
    assume "x = PosInf"
    with assms(2) show ?thesis by (simp add: jsnum_ops js_div_def inf_of_def)
  next
    assume "\<exists>d. 0 < d \<and> x = Fin d"
    then obtain d where d: "0 < d" "x = Fin d" by blast
    with assms(2) have "0 < d / k" by simp
    from round_double_of_pos [OF this, of False] d assms(2) show ?thesis
      by (simp add: jsnum_ops js_div_def)
  qed
qed

lemma js_div_nonneg:
  assumes c: "0 \<le> c" and y: "y = PosInf \<or> (\<exists>q. 0 \<le> q \<and> y = Fin q)"
  shows "(Fin c / y = NaN \<and> c = 0 \<and> y = Fin 0) \<or> Fin 0 \<le> Fin c / y"
proof -
  from y show ?thesis
  proof
    assume "y = PosInf"
    with c show ?thesis by (simp add: jsnum_ops js_div_def js_gt_def zero_of_def)
  next
    assume "\<exists>q. 0 \<le> q \<and> y = Fin q"
    then obtain q where q: "0 \<le> q" "y = Fin q" by blast
    show ?thesis
    proof (cases "q = 0")
      case True
      with c q show ?thesis
        by (cases "c = 0") (simp_all add: jsnum_ops js_div_def js_gt_def inf_of_def)
    next
      case False
      with q have qpos: "0 < q" by simp
      show ?thesis
      proof (cases "c = 0")
        case True
        with q qpos show ?thesis
          by (simp add: jsnum_ops js_div_def js_gt_def zero_of_def)
      next
        case False
        with c qpos have "0 < c / q" by simp
        from round_double_of_pos [OF this, of False] q qpos c show ?thesis
          by (auto simp: jsnum_ops js_div_def js_gt_def)
      qed
    qed
  qed
qed

lemma Math_max_NaN_iff: "Math_max a b = NaN \<longleftrightarrow> a = NaN \<or> b = NaN"
  by (auto simp: Math_max_def)

lemma Math_max_ge_left:
  assumes "Math_max a b \<noteq> NaN"
  shows "a \<le> Math_max a b"
proof -
  from assms have nn: "a \<noteq> NaN" "b \<noteq> NaN" by (simp_all add: Math_max_NaN_iff)
  show ?thesis
  proof (cases "js_gt b a")
    case True
    then have "\<not> js_gt a b" by (auto simp: js_gt_def split: if_splits)
    with True nn show ?thesis by (simp add: Math_max_def jsnum_ops)
  next
    case False
    then have "Math_max a b = a \<or> (\<not> js_gt a b \<and> Math_max a b = b)"
      using nn by (simp add: Math_max_def)
    then show ?thesis
    proof
      assume "Math_max a b = a"
      with nn show ?thesis by (auto simp: jsnum_ops js_gt_def)
    next
      assume "\<not> js_gt a b \<and> Math_max a b = b"
      with nn show ?thesis by (simp add: jsnum_ops)
    qed
  qed
qed

lemma js_mul_finite:
  assumes "a \<noteq> NaN" "\<not> is_inf a" "b \<noteq> NaN" "\<not> is_inf b"
  shows "a * b = round_double (is_neg a \<noteq> is_neg b) (js_val a * js_val b)"
  using assms by (simp add: times_jsnum_def js_mul_def)

lemma js_sub_finite:
  assumes "b \<noteq> NaN" "\<not> is_inf b"
  shows "\<exists>neg. Fin a - b = round_double neg (a - js_val b)"
proof -
  have "js_neg b \<noteq> NaN" "\<not> is_inf (js_neg b)" "js_val (js_neg b) = - js_val b"
    using assms by (cases b; simp)+
  then show ?thesis
    by (auto simp: minus_jsnum_def js_sub_def js_add_def)
qed

lemma js_add_not_NaN:
  assumes "b \<noteq> NaN"
  shows "Fin a + b \<noteq> NaN"
  using assms by (simp add: plus_jsnum_def js_add_def)

lemma Math_min_cases:
  assumes "a \<noteq> NaN" "b \<noteq> NaN"
  shows "Math_min a b = a \<or> Math_min a b = b"
  using assms by (simp add: Math_min_def)

lemma Math_min_PosInf: "Math_min (Fin d) PosInf = Fin d"
  by (simp add: Math_min_def js_gt_def)

subsection \<open>Literals and quotients of the examples\<close>

lemma literal_tenth: "js_literal (1 / 10) = Fin (3602879701896397 / 36028797018963968)"
  unfolding js_literal_def
  by (rule round_double_posI [where e = "- 4" and n = 7205759403792794])
    (simp_all add: round_half_even_def Let_def)

lemma literal_four_tenths: "js_literal (2 / 5) = Fin (3602879701896397 / 9007199254740992)"
  unfolding js_literal_def
  by (rule round_double_posI [where e = "- 2" and n = 7205759403792794])
    (simp_all add: round_half_even_def Let_def)

lemma round_double_half [simp]: "round_double neg (1 / 2) = Fin (1 / 2)"
  by (rule round_double_posI [where e = "- 1" and n = "2 ^ 52"])
    (simp_all add: round_half_even_def Let_def)

lemma round_double_quarter [simp]: "round_double neg (1 / 4) = Fin (1 / 4)"
  by (rule round_double_posI [where e = "- 2" and n = "2 ^ 52"])
    (simp_all add: round_half_even_def Let_def)

lemma quotient_58_100: "Fin 58 / Fin 100 = Fin (5224175567749775 / 9007199254740992)"
  unfolding divide_jsnum_def js_div_def
  by simp (rule round_double_posI [where e = "- 1" and n = 5224175567749775],
    simp_all add: round_half_even_def Let_def)

lemma quotient_35_100: "Fin 35 / Fin 100 = Fin (3152519739159347 / 9007199254740992)"
  unfolding divide_jsnum_def js_div_def
  by simp (rule round_double_posI [where e = "- 2" and n = 6305039478318694],
    simp_all add: round_half_even_def Let_def)

lemma quotient_30_100: "Fin 30 / Fin 100 = Fin (5404319552844595 / 18014398509481984)"
  unfolding divide_jsnum_def js_div_def
  by simp (rule round_double_posI [where e = "- 2" and n = 5404319552844595],
    simp_all add: round_half_even_def Let_def)

lemma appointments_50_50_58:
  "Math_round (Fin 50 * (Fin 50 / Fin 100) * (Fin 58 / Fin 100)) = Fin 14"
proof -
  have 1: "Fin 50 / Fin 100 = Fin (1 / 2)" by (simp add: jsnum_ops js_defs)
  have 2: "Fin 50 * Fin (1 / 2) = Fin 25" by (simp add: jsnum_ops js_defs)
  have 3: "Fin 25 * Fin (5224175567749775 / 9007199254740992)
      = Fin (8162774324609023 / 562949953421312)"
    unfolding times_jsnum_def js_mul_def
    by simp (rule round_double_posI [where e = 3 and n = 8162774324609023],
      simp_all add: round_half_even_def Let_def)
  show ?thesis by (simp add: 1 2 3 quotient_58_100)
qed

lemma appointments_1000_35_35:
  "Math_round (Fin 1000 * (Fin 35 / Fin 100) * (Fin 35 / Fin 100)) = Fin 122"
proof -
  have 1: "Fin 1000 * Fin (3152519739159347 / 9007199254740992) = Fin 350"
    unfolding times_jsnum_def js_mul_def
    by simp (rule round_double_posI [where e = 8 and n = 6157265115545600],
      simp_all add: round_half_even_def Let_def)
  have 2: "Fin 350 * Fin (3152519739159347 / 9007199254740992)
      = Fin (8620171161763839 / 70368744177664)"
    unfolding times_jsnum_def js_mul_def
    by simp (rule round_double_posI [where e = 6 and n = 8620171161763839],
      simp_all add: round_half_even_def Let_def)
  show ?thesis by (simp add: 1 2 quotient_35_100)
qed

lemma appointments_initial:
  "Math_round (Fin 50000 * (Fin 25 / Fin 100) * (Fin 30 / Fin 100)) = Fin 3750"
proof -
  have 1: "Fin 25 / Fin 100 = Fin (1 / 4)" by (simp add: jsnum_ops js_defs)
  have 2: "Fin 50000 * Fin (1 / 4) = Fin 12500" by (simp add: jsnum_ops js_defs)
  have 3: "Fin 12500 * Fin (5404319552844595 / 18014398509481984) = Fin 3750"
    unfolding times_jsnum_def js_mul_def
    by simp (rule round_double_posI [where e = 11 and n = 8246337208320000],
      simp_all add: round_half_even_def Let_def)
  show ?thesis by (simp add: 1 2 3 quotient_30_100)
qed

section \<open>Properties of the calculators\<close>

subsection \<open>The suggested cost\<close>

lemma calculateImplementationCost_NaN_iff:
  "calculateImplementationCost approx volume basePrice volumeFactor maxDiscount = NaN \<longleftrightarrow>
   basePrice + volume * volumeFactor *
     (Fin 1 - Math_min maxDiscount (Math_log10 approx (volume / Fin 1000) * js_literal (1 / 10)))
   = NaN"
  by (auto simp: calculateImplementationCost_def Let_def Math_max_NaN_iff jsnum_ops js_add_def)

text \<open>
  With the least positive double as volume, the quotient \<open>volume / 1000\<close> underflows
  to 0, its logarithm is \<open>-Infinity\<close>, the discount is \<open>-Infinity\<close> and the volume term
  is \<open>0 * Infinity\<close>: the result is \<open>NaN\<close>, for every implementation of the logarithm.
\<close>

lemma literal_four_tenths': "js_literal (4 / 10) = Fin (3602879701896397 / 9007199254740992)"
  using literal_four_tenths by simp

lemma underflow_volume_steps:
  "Fin min_subnormal / Fin 1000 = Fin 0"
  "Math_log10 approx (Fin 0) * js_literal (1 / 10) = NegInf"
  "Math_min (js_literal (4 / 10)) NegInf = NegInf"
  "Fin 1 - NegInf = PosInf"
  "Fin min_subnormal * Fin 0 * PosInf = NaN"
  "Fin 200000 + NaN = NaN"
  "Math_max (Fin 200000) NaN = NaN"
  using min_subnormal_pos
  by (simp_all add: jsnum_ops js_defs round_double_underflow literal_tenth literal_four_tenths
      Math_min_def Math_max_def inf_of_def zero_of_def)

text \<open>
  Claim C9 as it is worded fails: the volume is above 0, the base price, the volume
  factor and the maximal discount are not negative, all four are finite, and the result
  is \<open>NaN\<close>, which is not at least the base price.
\<close>

theorem calculateImplementationCost_underflow_counterexample:
  "Fin 0 < Fin min_subnormal \<and> Fin 0 \<le> Fin 200000 \<and> Fin 0 \<le> Fin 0 \<and>
   Fin 0 \<le> js_literal (4 / 10) \<and>
   calculateImplementationCost log10_nearest (Fin min_subnormal) (Fin 200000) (Fin 0)
     (js_literal (4 / 10)) = NaN \<and>
   \<not> Fin 200000 \<le>
     calculateImplementationCost log10_nearest (Fin min_subnormal) (Fin 200000) (Fin 0)
       (js_literal (4 / 10))"
proof -
  have nan: "calculateImplementationCost log10_nearest (Fin min_subnormal) (Fin 200000) (Fin 0)
     (js_literal (4 / 10)) = NaN"
    by (simp only: calculateImplementationCost_def Let_def underflow_volume_steps)
  have "Fin 0 < Fin min_subnormal" "Fin 0 \<le> Fin 200000" "Fin 0 \<le> Fin 0"
    "Fin 0 \<le> js_literal (4 / 10)" "\<not> Fin 200000 \<le> NaN"
    using min_subnormal_pos by (simp_all add: literal_four_tenths jsnum_ops js_gt_def)
  then show ?thesis by (simp only: nan simp_thms)
qed

text \<open>An infinite volume with a volume factor of 0 gives \<open>NaN\<close> as well.\<close>

lemma infinite_volume_steps:
  "PosInf / Fin 1000 = PosInf"
  "Math_log10 approx PosInf * js_literal (1 / 10) = PosInf"
  "Math_min (js_literal (4 / 10)) PosInf = js_literal (4 / 10)"
  "PosInf * Fin 0 = NaN"
  "NaN * x = NaN"
  by (simp_all add: jsnum_ops js_defs literal_tenth literal_four_tenths
      Math_min_def inf_of_def zero_of_def)

lemma calculateImplementationCost_infinite_volume:
  "calculateImplementationCost approx PosInf (Fin 200000) (Fin 0) (js_literal (4 / 10)) = NaN"
  by (simp only: calculateImplementationCost_def Let_def infinite_volume_steps
      underflow_volume_steps)

text \<open>
  When nothing underflows or overflows, the discount is finite and the result is not
  \<open>NaN\<close>.
\<close>

lemma discount_finite:
  assumes v: "min_subnormal * 1000 \<le> v"
    and d: "\<bar>d\<bar> \<le> 2 powi 1021"
    and approx: "\<forall>x. min_subnormal \<le> x \<and> x < overflow_bound \<longrightarrow>
        approx x \<noteq> NaN \<and> \<not> is_inf (approx x) \<and> \<bar>js_val (approx x)\<bar> \<le> 2 powi 1021"
  defines "D \<equiv> Math_min (Fin d) (Math_log10 approx (Fin v / Fin 1000) * js_literal (1 / 10))"
  shows "D \<noteq> NaN \<and> \<not> is_inf D \<and> \<bar>js_val D\<bar> \<le> 2 powi 1021"
proof -
  define c :: real where "c = 3602879701896397 / 36028797018963968"
  have c: "0 \<le> c" "c \<le> 1" "js_literal (1 / 10) = Fin c" "0 < c"
    by (simp_all add: c_def literal_tenth)
  have vpos: "0 < v" using v min_subnormal_pos by (smt (verit) mult_pos_pos)
  have "min_subnormal \<le> v / 1000" using v by simp
  from round_double_of_grid_pos [OF this, of False]
  have q: "Fin v / Fin 1000 = PosInf \<or> (\<exists>m. 0 < m \<and> Fin v / Fin 1000 = Fin m)"
    using vpos by (simp add: divide_jsnum_def js_div_def)
  have Fd: "Fin d \<noteq> NaN \<and> \<not> is_inf (Fin d) \<and> \<bar>js_val (Fin d)\<bar> \<le> 2 powi 1021"
    using d by simp
  from q show ?thesis
  proof
    assume "Fin v / Fin 1000 = PosInf"
    then have "D = Fin d"
      using c(4) by (simp add: D_def c(3) times_jsnum_def js_mul_def inf_of_def Math_min_PosInf)
    with Fd show ?thesis by (simp only: simp_thms)
  next
    assume "\<exists>m. 0 < m \<and> Fin v / Fin 1000 = Fin m"
    then obtain m where m: "0 < m" "Fin v / Fin 1000 = Fin m" by blast
    then have r: "round_double False (v / 1000) = Fin m"
      using vpos by (simp add: divide_jsnum_def js_div_def)
    then have "double_grid m" by (rule round_double_grid)
    then have lo: "min_subnormal \<le> m" using m(1) by (rule double_grid_pos_ge)
    from r have "\<bar>m\<bar> < overflow_bound" by (rule round_double_Fin_less)
    then have hi: "m < overflow_bound" by linarith
    define L where "L = Math_log10 approx (Fin m)"
    have L: "L \<noteq> NaN \<and> \<not> is_inf L \<and> \<bar>js_val L\<bar> \<le> 2 powi 1021"
    proof (cases "m = 1")
      case True
      then have "L = Fin 0" by (simp add: L_def)
      then show ?thesis by simp
    next
      case False
      then have "L = approx m" using m(1) by (simp add: L_def)
      with approx lo hi show ?thesis by simp
    qed
    define X where "X = L * Fin c"
    have X: "X = round_double (is_neg L \<noteq> is_neg (Fin c)) (js_val L * js_val (Fin c))"
      unfolding X_def using L by (intro js_mul_finite) simp_all
    have "\<bar>js_val L * c\<bar> = \<bar>js_val L\<bar> * c" using c(1) by (simp add: abs_mult)
    also have "\<dots> \<le> \<bar>js_val L\<bar> * 1" using c(2) by (intro mult_left_mono) simp_all
    also have "\<dots> \<le> 2 powi 1021" using L by simp
    finally have "\<bar>js_val L * js_val (Fin c)\<bar> \<le> 2 powi 1021" by simp
    from round_double_bounded [OF this, of "is_neg L \<noteq> is_neg (Fin c)"]
    have Xb: "X \<noteq> NaN \<and> \<not> is_inf X \<and> \<bar>js_val X\<bar> \<le> 2 powi 1021"
      unfolding X by simp
    have "D = Math_min (Fin d) X" by (simp only: D_def m(2) L_def [symmetric] c(3) X_def)
    moreover have "Math_min (Fin d) X = Fin d \<or> Math_min (Fin d) X = X"
      using Xb by (intro Math_min_cases) simp_all
    ultimately have "D = Fin d \<or> D = X" by (simp only:)
    with Fd Xb show ?thesis by (elim disjE) (simp_all only: simp_thms)
  qed
qed

lemma calculateImplementationCost_not_NaN:
  assumes v: "min_subnormal * 1000 \<le> v"
    and t: "\<bar>v * f\<bar> \<le> 2 powi 1023"
    and d: "\<bar>d\<bar> \<le> 2 powi 1021"
    and approx: "\<forall>x. min_subnormal \<le> x \<and> x < overflow_bound \<longrightarrow>
        approx x \<noteq> NaN \<and> \<not> is_inf (approx x) \<and> \<bar>js_val (approx x)\<bar> \<le> 2 powi 1021"
  shows "calculateImplementationCost approx (Fin v) (Fin b) (Fin f) (Fin d) \<noteq> NaN"
proof -
  define D where "D = Math_min (Fin d) (Math_log10 approx (Fin v / Fin 1000) * js_literal (1 / 10))"
  from discount_finite [OF v d approx]
  have D: "D \<noteq> NaN" "\<not> is_inf D" "\<bar>js_val D\<bar> \<le> 2 powi 1021"
    unfolding D_def by blast+
  from js_sub_finite [OF D(1,2), of 1] obtain neg where
    E: "Fin 1 - D = round_double neg (1 - js_val D)" by blast
  have "\<bar>1 - js_val D\<bar> \<le> 1 + \<bar>js_val D\<bar>" by simp
  also have "\<dots> \<le> 1 + 2 powi 1021" using D(3) by simp
  also note two_powi_1023
  finally have "\<not> is_inf (round_double neg (1 - js_val D))"
    using round_double_bounded [of "1 - js_val D" 1023 neg] by simp
  then have Ef: "Fin 1 - D \<noteq> NaN" "\<not> is_inf (Fin 1 - D)" by (simp_all only: E round_double_not_NaN not_False_eq_True)
  have T1: "Fin v * Fin f = round_double (is_neg (Fin v) \<noteq> is_neg (Fin f)) (v * f)"
    by (simp add: times_jsnum_def js_mul_def)
  have T1f: "Fin v * Fin f \<noteq> NaN" "\<not> is_inf (Fin v * Fin f)"
    using round_double_bounded [OF t, of "is_neg (Fin v) \<noteq> is_neg (Fin f)"]
    by (simp_all only: T1 round_double_not_NaN not_False_eq_True)
  have "Fin v * Fin f * (Fin 1 - D)
      = round_double (is_neg (Fin v * Fin f) \<noteq> is_neg (Fin 1 - D))
          (js_val (Fin v * Fin f) * js_val (Fin 1 - D))"
    using T1f Ef by (rule js_mul_finite)
  then have "Fin v * Fin f * (Fin 1 - D) \<noteq> NaN" by (simp only: round_double_not_NaN not_False_eq_True)
  then have "Fin b + Fin v * Fin f * (Fin 1 - D) \<noteq> NaN" by (rule js_add_not_NaN)
  then show ?thesis
    by (simp only: calculateImplementationCost_def Let_def D_def [symmetric] Math_max_NaN_iff)
      simp
qed

text \<open>
  Claim C9, amended.  For every volume, base price, volume factor and maximal discount,
  and every implementation of the logarithm, \<open>calculateImplementationCost\<close> returns
  \<open>NaN\<close> or a number that is at least the base price: the outer \<open>Math.max\<close> lets no
  number below the base price through.  The result is \<open>NaN\<close> exactly when the sum under
  the \<open>Math.max\<close>, base price plus volume term, is \<open>NaN\<close>.  It is at least the base
  price, and so not \<open>NaN\<close>, when the four arguments are finite, the volume is at least
  1000 times the least positive double (the quotient \<open>volume / 1000\<close> is not rounded
  to 0), the product of volume and volume factor is at most \<open>2 powi 1023\<close> in magnitude
  (it does not overflow), the maximal discount is at most \<open>2 powi 1021\<close> in magnitude,
  and the logarithm returns for a positive double a finite number of magnitude at most
  \<open>2 powi 1021\<close>.
\<close>

theorem calculateImplementationCost_NaN_or_ge_basePrice:
  "(calculateImplementationCost approx volume basePrice volumeFactor maxDiscount = NaN \<or>
    basePrice \<le> calculateImplementationCost approx volume basePrice volumeFactor maxDiscount) \<and>
   (calculateImplementationCost approx volume basePrice volumeFactor maxDiscount = NaN \<longleftrightarrow>
    basePrice + volume * volumeFactor *
      (Fin 1 - Math_min maxDiscount (Math_log10 approx (volume / Fin 1000) * js_literal (1 / 10)))
    = NaN) \<and>
   (\<forall>v b f d.
      volume = Fin v \<and> basePrice = Fin b \<and> volumeFactor = Fin f \<and> maxDiscount = Fin d \<and>
      min_subnormal * 1000 \<le> v \<and> \<bar>v * f\<bar> \<le> 2 powi 1023 \<and> \<bar>d\<bar> \<le> 2 powi 1021 \<and>
      (\<forall>x. min_subnormal \<le> x \<and> x < overflow_bound \<longrightarrow>
         approx x \<noteq> NaN \<and> \<not> is_inf (approx x) \<and> \<bar>js_val (approx x)\<bar> \<le> 2 powi 1021) \<longrightarrow>
      basePrice \<le> calculateImplementationCost approx volume basePrice volumeFactor maxDiscount)"
proof -
  have ge: "basePrice \<le> calculateImplementationCost approx volume basePrice volumeFactor maxDiscount"
    if "calculateImplementationCost approx volume basePrice volumeFactor maxDiscount \<noteq> NaN"
    using that unfolding calculateImplementationCost_def Let_def by (rule Math_max_ge_left)
  have "basePrice \<le> calculateImplementationCost approx volume basePrice volumeFactor maxDiscount"
    if "volume = Fin v" "basePrice = Fin b" "volumeFactor = Fin f" "maxDiscount = Fin d"
      "min_subnormal * 1000 \<le> v" "\<bar>v * f\<bar> \<le> 2 powi 1023" "\<bar>d\<bar> \<le> 2 powi 1021"
      "\<forall>x. min_subnormal \<le> x \<and> x < overflow_bound \<longrightarrow>
         approx x \<noteq> NaN \<and> \<not> is_inf (approx x) \<and> \<bar>js_val (approx x)\<bar> \<le> 2 powi 1021"
    for v b f d
  proof -
    from that(5-8)
    have "calculateImplementationCost approx (Fin v) (Fin b) (Fin f) (Fin d) \<noteq> NaN"
      by (rule calculateImplementationCost_not_NaN)
    then show ?thesis unfolding that(1-4) by (rule ge [unfolded that(1-4)])
  qed
  with ge calculateImplementationCost_NaN_iff show ?thesis by blast
qed

text \<open>
  The witness is a volume of 1000 at a base price of 200000, a volume factor of 5 and a
  maximal discount of 0.4, the logarithm rounded to the nearest double: the result is
  205000.
\<close>

lemma thousand_visits_steps:
  "Fin 1000 / Fin 1000 = Fin 1"
  "Math_log10 approx (Fin 1) * js_literal (1 / 10) = Fin 0"
  "Math_min (js_literal (4 / 10)) (Fin 0) = Fin 0"
  "Fin 1 - Fin 0 = Fin 1"
  "Fin 1000 * Fin 5 * Fin 1 = Fin 5000"
  "Fin 200000 + Fin 5000 = Fin 205000"
  "Math_max (Fin 200000) (Fin 205000) = Fin 205000"
  "Fin 200000 \<le> Fin 205000"
  by (simp_all add: jsnum_ops js_defs literal_tenth literal_four_tenths
      Math_min_def Math_max_def inf_of_def zero_of_def)

lemma thousand_visits_bounds:
  "min_subnormal * 1000 \<le> 1000"
  "\<bar>1000 * 5 :: real\<bar> \<le> 2 powi 1023"
  "\<bar>3602879701896397 / 9007199254740992 :: real\<bar> \<le> 2 powi 1021"
proof -
  have "(2::real) powi (- 1074) \<le> 2 powi 0" by (rule power_int_increasing) simp_all
  then have "min_subnormal \<le> 1" by (simp only: min_subnormal_def power_int_0_right)
  then show "min_subnormal * 1000 \<le> 1000" by simp
  have "(2::real) powi 13 \<le> 2 powi 1023" by (rule power_int_increasing) simp_all
  moreover have "\<bar>1000 * 5 :: real\<bar> \<le> 2 powi 13" by simp
  ultimately show "\<bar>1000 * 5 :: real\<bar> \<le> 2 powi 1023" by (rule order_trans [rotated])
  have "(2::real) powi 0 \<le> 2 powi 1021" by (rule power_int_increasing) simp_all
  moreover have "\<bar>3602879701896397 / 9007199254740992 :: real\<bar> \<le> 2 powi 0" by simp
  ultimately show "\<bar>3602879701896397 / 9007199254740992 :: real\<bar> \<le> 2 powi 1021"
    by (rule order_trans [rotated])
qed

theorem calculateImplementationCost_NaN_or_ge_basePrice_witness:
  "calculateImplementationCost log10_nearest (Fin 1000) (Fin 200000) (Fin 5) (js_literal (4 / 10))
     = Fin 205000 \<and>
   Fin 200000 \<le>
     calculateImplementationCost log10_nearest (Fin 1000) (Fin 200000) (Fin 5) (js_literal (4 / 10))"
proof -
  have approx: "\<forall>x. min_subnormal \<le> x \<and> x < overflow_bound \<longrightarrow>
      log10_nearest x \<noteq> NaN \<and> \<not> is_inf (log10_nearest x) \<and>
      \<bar>js_val (log10_nearest x)\<bar> \<le> 2 powi 1021"
    using log10_nearest_finite by blast
  from calculateImplementationCost_NaN_or_ge_basePrice
    [of log10_nearest "Fin 1000" "Fin 200000" "Fin 5" "js_literal (4 / 10)"]
  have "Fin 200000 \<le>
     calculateImplementationCost log10_nearest (Fin 1000) (Fin 200000) (Fin 5) (js_literal (4 / 10))"
    using thousand_visits_bounds approx unfolding literal_four_tenths' by blast
  moreover have "calculateImplementationCost log10_nearest (Fin 1000) (Fin 200000) (Fin 5)
      (js_literal (4 / 10)) = Fin 205000"
    by (simp only: calculateImplementationCost_def Let_def thousand_visits_steps)
  ultimately show ?thesis by (simp only: simp_thms)
qed

subsection \<open>The payback period\<close>

lemma double_grid_of_int: "double_grid (of_int n)"
proof -
  have ms: "min_subnormal = inverse (2 ^ 1074)"
    unfolding min_subnormal_def by (simp only: power_int_minus power_int_numeral)
  have "of_int n / min_subnormal = of_int n * 2 ^ 1074"
    unfolding ms by (simp only: divide_inverse inverse_inverse_eq)
  also have "\<dots> = of_int (n * 2 ^ 1074)"
    by (simp only: of_int_mult of_int_power of_int_numeral)
  finally show ?thesis by (simp only: double_grid_iff Ints_of_int)
qed

lemma double_grid_numeral [simp]: "double_grid (numeral k)"
  using double_grid_of_int [of "numeral k"] by simp

lemma paybackMonths_unfold:
  "paybackMonths (fullBenefitsROI (results (calculateROI s))) =
     (if annualMaintenanceCost (inputs s) < totalAnnualBenefit (results (calculateROI s))
      then implementationCost (inputs s) /
             ((totalAnnualBenefit (results (calculateROI s)) - annualMaintenanceCost (inputs s))
                / Fin 12)
      else PosInf)"
  "paybackMonths (directRevenueROI (results (calculateROI s))) =
     (if annualMaintenanceCost (inputs s) < directRevenue (results (calculateROI s))
      then implementationCost (inputs s) /
             ((directRevenue (results (calculateROI s)) - annualMaintenanceCost (inputs s))
                / Fin 12)
      else PosInf)"
  by (simp_all add: calculateROI_def Let_def)

lemma directRevenue_unfold:
  "directRevenue (results (calculateROI s)) =
     Math_round (annualVisits (inputs s) * (currentNoShowRate (inputs s) / Fin 100)
        * (expectedReduction (inputs s) / Fin 100))
       * revenuePerVisit (inputs s)"
  by (simp add: calculateROI_def Let_def)

lemma benefits_grid:
  "double_grid (js_val (totalAnnualBenefit (results (calculateROI s))))"
  "double_grid (js_val (directRevenue (results (calculateROI s))))"
  by (simp_all add: calculateROI_def Let_def js_add_grid js_mul_grid)

lemma zero_le_PosInf: "Fin 0 \<le> PosInf"
  by (simp add: jsnum_ops js_gt_def)

lemma guarded_period:
  assumes B: "double_grid (js_val B)" and m: "double_grid m" and c: "0 \<le> c"
  defines "P \<equiv> (if Fin m < B then Fin c / ((B - Fin m) / Fin 12) else PosInf)"
  shows "(Fin m < B \<longrightarrow> Fin 0 < B - Fin m \<and> Fin 0 \<le> (B - Fin m) / Fin 12) \<and>
         ((P = NaN \<and> c = 0 \<and> (B - Fin m) / Fin 12 = Fin 0) \<or> Fin 0 \<le> P)"
proof (cases "Fin m < B")
  case False
  then have "P = PosInf" by (simp only: P_def if_False)
  with False zero_le_PosInf show ?thesis by (simp only: simp_thms)
next
  case True
  from m have "double_grid (js_val (Fin m))" by simp
  from js_sub_pos [OF B this True]
  have diff: "B - Fin m = PosInf \<or> (\<exists>d. 0 < d \<and> B - Fin m = Fin d)" .
  have 1: "Fin 0 < B - Fin m"
    using diff by (elim disjE exE conjE) (simp_all only:, simp_all add: less_jsnum_def js_gt_def)
  from diff have quot:
    "(B - Fin m) / Fin 12 = PosInf \<or> (\<exists>q. 0 \<le> q \<and> (B - Fin m) / Fin 12 = Fin q)"
    by (rule js_div_pos) simp
  have 2: "Fin 0 \<le> (B - Fin m) / Fin 12"
    using quot
    by (elim disjE exE conjE)
      (simp_all only:, simp_all add: less_eq_jsnum_def js_le_def js_ge_def js_gt_def)
  have "P = Fin c / ((B - Fin m) / Fin 12)" using True by (simp only: P_def if_True)
  with js_div_nonneg [OF c quot] True 1 2 show ?thesis by (simp only: simp_thms)
qed

text \<open>
  Claim C10, amended.  In the calculator with volume pricing, for finite inputs that are
  not negative, the maintenance cost \<open>m\<close> a double: each payback period is \<open>Infinity\<close>
  when its benefit is not above \<open>m\<close>, and the quotient
  \<open>c / ((benefit - m) / 12)\<close> of JavaScript when it is.  In the second case
  the yearly net benefit \<open>benefit - m\<close> is above 0 and the monthly net benefit, the
  divisor, is not negative; it can be 0, by underflow.  The period is never negative.  It
  is \<open>NaN\<close> only when the cost is 0 and the divisor is 0, and it need not be finite.
\<close>

theorem paybackMonths_guard:
  assumes i: "inputs s =
      \<lparr> annualVisits = Fin v, currentNoShowRate = Fin r, revenuePerVisit = Fin p,
        expectedReduction = Fin e, implementationCost = Fin c, annualMaintenanceCost = Fin m \<rparr>"
    and nonneg: "0 \<le> v" "0 \<le> r" "0 \<le> p" "0 \<le> e" "0 \<le> c" "0 \<le> m"
    and double: "double_grid m"
  shows "\<exists>B D P Q.
      totalAnnualBenefit (results (calculateROI s)) = B \<and>
      directRevenue (results (calculateROI s)) = D \<and>
      paybackMonths (fullBenefitsROI (results (calculateROI s))) = P \<and>
      paybackMonths (directRevenueROI (results (calculateROI s))) = Q \<and>
      P = (if Fin m < B then Fin c / ((B - Fin m) / Fin 12) else PosInf) \<and>
      Q = (if Fin m < D then Fin c / ((D - Fin m) / Fin 12) else PosInf) \<and>
      (Fin m < B \<longrightarrow> Fin 0 < B - Fin m \<and> Fin 0 \<le> (B - Fin m) / Fin 12) \<and>
      (Fin m < D \<longrightarrow> Fin 0 < D - Fin m \<and> Fin 0 \<le> (D - Fin m) / Fin 12) \<and>
      ((P = NaN \<and> c = 0 \<and> (B - Fin m) / Fin 12 = Fin 0) \<or> Fin 0 \<le> P) \<and>
      ((Q = NaN \<and> c = 0 \<and> (D - Fin m) / Fin 12 = Fin 0) \<or> Fin 0 \<le> Q)"
proof -
  let ?B = "totalAnnualBenefit (results (calculateROI s))"
  let ?D = "directRevenue (results (calculateROI s))"
  have P: "paybackMonths (fullBenefitsROI (results (calculateROI s)))
      = (if Fin m < ?B then Fin c / ((?B - Fin m) / Fin 12) else PosInf)"
    by (simp only: paybackMonths_unfold i noshow_inputs.simps)
  have Q: "paybackMonths (directRevenueROI (results (calculateROI s)))
      = (if Fin m < ?D then Fin c / ((?D - Fin m) / Fin 12) else PosInf)"
    by (simp only: paybackMonths_unfold i noshow_inputs.simps)
  from guarded_period [OF benefits_grid(1) double \<open>0 \<le> c\<close>, of s]
    guarded_period [OF benefits_grid(2) double \<open>0 \<le> c\<close>, of s] P Q
  show ?thesis by (simp only: simp_thms ex_simps) blast
qed

text \<open>
  Claim C10 as it is worded fails.  At the inputs of \<open>underflow_state\<close>, finite and not
  negative, the direct revenue is above the maintenance cost, the monthly net benefit
  underflows to 0, the division by it is made all the same, and the period is \<open>NaN\<close>,
  not a finite quotient.
\<close>

lemma underflow_steps:
  "Fin 100 / Fin 100 = Fin 1"
  "Fin 1 * Fin 1 = Fin 1"
  "Math_round (Fin 1) = Fin 1"
  "Fin 1 * Fin min_subnormal = Fin min_subnormal"
  "Fin 0 < Fin min_subnormal"
  "Fin min_subnormal - Fin 0 = Fin min_subnormal"
  "Fin min_subnormal / Fin 12 = Fin 0"
  "Fin 0 / Fin 0 = NaN"
  using min_subnormal_pos
  by (simp_all add: jsnum_ops js_defs round_double_underflow zero_of_def)

theorem paybackMonths_underflow_counterexample:
  "inputs underflow_state =
     \<lparr> annualVisits = Fin 1, currentNoShowRate = Fin 100, revenuePerVisit = Fin min_subnormal,
       expectedReduction = Fin 100, implementationCost = Fin 0, annualMaintenanceCost = Fin 0 \<rparr> \<and>
   directRevenue (results (calculateROI underflow_state)) = Fin min_subnormal \<and>
   annualMaintenanceCost (inputs underflow_state)
     < directRevenue (results (calculateROI underflow_state)) \<and>
   (directRevenue (results (calculateROI underflow_state))
      - annualMaintenanceCost (inputs underflow_state)) / Fin 12 = Fin 0 \<and>
   paybackMonths (directRevenueROI (results (calculateROI underflow_state))) = NaN"
proof -
  have i: "inputs underflow_state =
     \<lparr> annualVisits = Fin 1, currentNoShowRate = Fin 100, revenuePerVisit = Fin min_subnormal,
       expectedReduction = Fin 100, implementationCost = Fin 0, annualMaintenanceCost = Fin 0 \<rparr>"
    by (simp add: underflow_state_def)
  have D: "directRevenue (results (calculateROI underflow_state)) = Fin min_subnormal"
    by (simp only: directRevenue_unfold i noshow_inputs.simps underflow_steps)
  have Q: "paybackMonths (directRevenueROI (results (calculateROI underflow_state))) = NaN"
    by (simp only: paybackMonths_unfold D i noshow_inputs.simps underflow_steps if_True)
  show ?thesis
    by (simp only: i D Q noshow_inputs.simps underflow_steps simp_thms)
qed

text \<open>
  The witness is the state the page starts in: a direct revenue of 562500 and a period
  of about 11.55 months.
\<close>

lemma initial_direct_steps:
  "Fin 3750 * Fin 150 = Fin 562500"
  "Fin 95000 < Fin 562500"
  "Fin 562500 - Fin 95000 = Fin 467500"
  "Fin 0 \<le> Fin (3251261763074957 / 281474976710656)"
  by (simp_all add: jsnum_ops js_defs)

lemma initial_direct_quotients:
  "Fin 467500 / Fin 12 = Fin (5354392562346667 / 137438953472)"
  "Fin 450000 / Fin (5354392562346667 / 137438953472)
     = Fin (3251261763074957 / 281474976710656)"
proof -
  show "Fin 467500 / Fin 12 = Fin (5354392562346667 / 137438953472)"
    unfolding divide_jsnum_def js_div_def
    by simp (rule round_double_posI [where e = 15 and n = 5354392562346667],
      simp_all add: round_half_even_def Let_def)
  show "Fin 450000 / Fin (5354392562346667 / 137438953472)
     = Fin (3251261763074957 / 281474976710656)"
    unfolding divide_jsnum_def js_div_def
    by simp (rule round_double_posI [where e = 3 and n = 6502523526149914],
      simp_all add: round_half_even_def Let_def)
qed

theorem paybackMonths_guard_witness:
  "(0::real) \<le> 450000 \<and> (0::real) \<le> 95000 \<and> double_grid 95000 \<and>
   directRevenue (results (calculateROI initial_state)) = Fin 562500 \<and>
   paybackMonths (directRevenueROI (results (calculateROI initial_state)))
     = Fin (3251261763074957 / 281474976710656) \<and>
   Fin 0 \<le> paybackMonths (directRevenueROI (results (calculateROI initial_state)))"
proof -
  have i: "inputs initial_state =
     \<lparr> annualVisits = Fin 50000, currentNoShowRate = Fin 25, revenuePerVisit = Fin 150,
       expectedReduction = Fin 30, implementationCost = Fin 450000,
       annualMaintenanceCost = Fin 95000 \<rparr>"
    by (simp add: initial_defs)
  have D: "directRevenue (results (calculateROI initial_state)) = Fin 562500"
    by (simp only: directRevenue_unfold i noshow_inputs.simps appointments_initial
        initial_direct_steps)
  have Q: "paybackMonths (directRevenueROI (results (calculateROI initial_state)))
     = Fin (3251261763074957 / 281474976710656)"
    by (simp only: paybackMonths_unfold D i noshow_inputs.simps initial_direct_steps
        initial_direct_quotients if_True)
  from paybackMonths_guard [OF i] D Q initial_direct_steps(4)
  show ?thesis by simp
qed

subsection \<open>Two evaluations\<close>

text \<open>
  Claim C7.  \<open>calculateROI\<close> of the ROI page, in both of its versions, computes every
  field of \<open>results\<close> from the six numbers of \<open>inputs\<close> alone (visits, no-show rate,
  revenue per visit, expected reduction, implementation cost, maintenance cost): two
  states that agree on them get equal \<open>results\<close>, field by field, whatever the results
  of an earlier evaluation, the calculator shown, the view chosen and (in the older
  version, which keeps one) the center size.  No clock and no random source is read: the
  state is all the function is given, and of the state it uses these six numbers.
\<close>

theorem calculateROI_deterministic:
  "(inputs s = inputs s' \<longrightarrow> results (calculateROI s) = results (calculateROI s')) \<and>
   (page_inputs.annualVisits (page_state.inputs t) = page_inputs.annualVisits (page_state.inputs t') \<and>
    page_inputs.currentNoShowRate (page_state.inputs t)
      = page_inputs.currentNoShowRate (page_state.inputs t') \<and>
    page_inputs.revenuePerVisit (page_state.inputs t)
      = page_inputs.revenuePerVisit (page_state.inputs t') \<and>
    page_inputs.expectedReduction (page_state.inputs t)
      = page_inputs.expectedReduction (page_state.inputs t') \<and>
    page_inputs.implementationCost (page_state.inputs t)
      = page_inputs.implementationCost (page_state.inputs t') \<and>
    page_inputs.annualMaintenanceCost (page_state.inputs t)
      = page_inputs.annualMaintenanceCost (page_state.inputs t') \<longrightarrow>
      page_state.results (page_calculateROI t) = page_state.results (page_calculateROI t'))"
  by (simp add: calculateROI_def page_calculateROI_def Let_def)

text \<open>
  The witness evaluates twice in a row, the view switched in between, and on the older
  page with another calculator shown and another center size.
\<close>

theorem calculateROI_deterministic_witness:
  "results (calculateROI ((calculateROI initial_state)\<lparr> showFullBenefits := False \<rparr>))
     = results (calculateROI initial_state) \<and>
   page_state.results (page_calculateROI
       \<lparr> page_state.activeCalculator = ''readmission'',
         inputs = (page_state.inputs page_initial_state)\<lparr> page_inputs.centerSize := ''large'' \<rparr>,
         results = page_state.results (page_calculateROI page_initial_state) \<rparr>)
     = page_state.results (page_calculateROI page_initial_state) \<and>
   page_results.appointmentsSaved (page_state.results (page_calculateROI page_initial_state))
     = Fin 3750"
proof -
  have "page_results.appointmentsSaved (page_state.results (page_calculateROI page_initial_state))
     = Fin 3750"
    by (simp add: page_calculateROI_def Let_def page_initial_state_def appointments_initial)
  with calculateROI_deterministic
    [of "(calculateROI initial_state)\<lparr> showFullBenefits := False \<rparr>" initial_state
        "\<lparr> page_state.activeCalculator = ''readmission'',
           inputs = (page_state.inputs page_initial_state)\<lparr> page_inputs.centerSize := ''large'' \<rparr>,
           results = page_state.results (page_calculateROI page_initial_state) \<rparr>"
        page_initial_state]
  show ?thesis by (simp add: calculateROI_def Let_def)
qed

subsection \<open>Appointments saved\<close>

text \<open>
  \<open>Math.round\<close> of a finite number is the integer \<^term>\<open>\<lfloor>x + 1 / 2\<rfloor>\<close>.
\<close>

lemma Math_round_nearest:
  "js_val (Math_round (Fin x)) = of_int \<lfloor>x + 1 / 2\<rfloor>"
  by (simp add: zero_of_def)

text \<open>
  Claim C8.  The four calculators agree on the appointments saved.  For visits \<open>v\<close>, a
  no-show rate \<open>r\<close> and an expected reduction \<open>e\<close>, the rates in percent:
  \<open>SimpleROICalculator\<close> holding the decimals \<open>r / 100\<close> and \<open>e / 100\<close>, the ROI page,
  the ROI page with volume pricing and the standalone \<open>ROICalculator\<close> all compute
  \<open>Math.round(v * (r / 100) * (e / 100))\<close>, the quotients and the products those
  of doubles; when the product is finite, this is the integer nearest to it, a tie
  going up.
\<close>

theorem appointmentsSaved_agree:
  assumes "simple_inputs.annualVisits (simple_state.inputs a) = v"
    and "simple_inputs.currentNoShowRate (simple_state.inputs a) = r / Fin 100"
    and "expectedNoShowReduction (simple_state.inputs a) = e / Fin 100"
    and "page_inputs.annualVisits (page_state.inputs b) = v"
    and "page_inputs.currentNoShowRate (page_state.inputs b) = r"
    and "page_inputs.expectedReduction (page_state.inputs b) = e"
    and "annualVisits (inputs c) = v"
    and "currentNoShowRate (inputs c) = r"
    and "expectedReduction (inputs c) = e"
    and "roicalculator_state.annualVisits d = v"
    and "noShowRate d = r"
    and "roicalculator_state.expectedReduction d = e"
  shows "simple_results.appointmentsSaved (simple_state.results (simple_calculateROI a))
           = Math_round (v * (r / Fin 100) * (e / Fin 100)) \<and>
         page_results.appointmentsSaved (page_state.results (page_calculateROI b))
           = Math_round (v * (r / Fin 100) * (e / Fin 100)) \<and>
         appointmentsSaved (results (calculateROI c))
           = Math_round (v * (r / Fin 100) * (e / Fin 100)) \<and>
         roicalculator_metrics.appointmentsSaved (ROICalculator d)
           = Math_round (v * (r / Fin 100) * (e / Fin 100)) \<and>
         (\<forall>x. v * (r / Fin 100) * (e / Fin 100) = Fin x \<longrightarrow>
            js_val (appointmentsSaved (results (calculateROI c))) = of_int \<lfloor>x + 1 / 2\<rfloor>)"
proof -
  have "appointmentsSaved (results (calculateROI c))
          = Math_round (v * (r / Fin 100) * (e / Fin 100))"
    using assms by (simp add: calculateROI_def Let_def)
  moreover have "js_val (Math_round (Fin x)) = of_int \<lfloor>x + 1 / 2\<rfloor>" for x
    by (rule Math_round_nearest)
  ultimately show ?thesis
    using assms
    by (simp add: simple_calculateROI_def page_calculateROI_def ROICalculator_def Let_def)
qed

text \<open>
  The witness enters 50 visits at 50 and 58 percent: the product of the doubles is
  14.499999999999998 and all four components show 14, where the exact product 14.5 would
  give 15.  With 1000 visits at 35 and 35 percent they show 122.
\<close>

lemmas entered_defs =
  simple_entered_def page_entered_def entered_def roicalculator_entered_def
  simple_initial_state_def page_initial_state_def initial_defs roicalculator_initial_state_def

theorem appointmentsSaved_agree_witness:
  "simple_results.appointmentsSaved (simple_state.results
      (simple_calculateROI (simple_entered (Fin 50) (Fin 50) (Fin 58)))) = Fin 14 \<and>
   page_results.appointmentsSaved (page_state.results
      (page_calculateROI (page_entered (Fin 50) (Fin 50) (Fin 58)))) = Fin 14 \<and>
   appointmentsSaved (results (calculateROI (entered (Fin 50) (Fin 50) (Fin 58)))) = Fin 14 \<and>
   roicalculator_metrics.appointmentsSaved
      (ROICalculator (roicalculator_entered (Fin 50) (Fin 50) (Fin 58))) = Fin 14 \<and>
   simple_results.appointmentsSaved (simple_state.results
      (simple_calculateROI (simple_entered (Fin 1000) (Fin 35) (Fin 35)))) = Fin 122 \<and>
   roicalculator_metrics.appointmentsSaved
      (ROICalculator (roicalculator_entered (Fin 1000) (Fin 35) (Fin 35))) = Fin 122"
  using appointmentsSaved_agree
    [of "simple_entered (Fin 50) (Fin 50) (Fin 58)" "Fin 50" "Fin 50" "Fin 58"
        "page_entered (Fin 50) (Fin 50) (Fin 58)" "entered (Fin 50) (Fin 50) (Fin 58)"
        "roicalculator_entered (Fin 50) (Fin 50) (Fin 58)"]
    appointmentsSaved_agree
    [of "simple_entered (Fin 1000) (Fin 35) (Fin 35)" "Fin 1000" "Fin 35" "Fin 35"
        "page_entered (Fin 1000) (Fin 35) (Fin 35)" "entered (Fin 1000) (Fin 35) (Fin 35)"
        "roicalculator_entered (Fin 1000) (Fin 35) (Fin 35)"]
  by (simp add: entered_defs appointments_50_50_58 appointments_1000_35_35)

section \<open>Properties of the label constructor and the dataset assembler\<close>

subsection \<open>The join keeps the cases and their ids\<close>

lemma join_case_SomeD:
  assumes "join_case fvs labels c = Some (c', f, l)"
  shows "c' = c"
    and "find (\<lambda>f. feature_row.case_id f = prediction_case.case_id c) fvs = Some f"
    and "find (\<lambda>l. label_row.case_id l = prediction_case.case_id c) labels = Some l"
  using assms by (auto simp: join_case_def split: option.splits)

lemma map_fst_joined:
  "map fst (List.map_filter (join_case fvs labels) cases)
     = filter (\<lambda>c. join_case fvs labels c \<noteq> None) cases"
proof (induction cases)
  case Nil
  show ?case by (simp add: List.map_filter_simps)
next
  case (Cons c cases)
  show ?case
  proof (cases "join_case fvs labels c")
    case None
    with Cons show ?thesis by (simp add: List.map_filter_simps)
  next
    case (Some x)
    obtain c' f l where x: "x = (c', f, l)" by (cases x)
    with Some have "c' = c" by (simp add: join_case_SomeD(1))
    with Some x Cons show ?thesis by (simp add: List.map_filter_simps)
  qed
qed

lemma labelled_cases_distinct:
  assumes "distinct (map prediction_case.case_id cases)"
  shows "distinct (map (\<lambda>x. prediction_case.case_id (fst x)) (labelled_cases fvs labels cases))"
proof -
  have "map (\<lambda>x. prediction_case.case_id (fst x)) (List.map_filter (join_case fvs labels) cases)
      = map prediction_case.case_id (map fst (List.map_filter (join_case fvs labels) cases))"
    by simp
  also have "\<dots> = map prediction_case.case_id (filter (\<lambda>c. join_case fvs labels c \<noteq> None) cases)"
    by (simp only: map_fst_joined)
  finally have "distinct (map (\<lambda>x. prediction_case.case_id (fst x))
      (List.map_filter (join_case fvs labels) cases))"
    using assms by (simp add: distinct_map_filter)
  then show ?thesis
    unfolding labelled_cases_def by (rule distinct_map_filter)
qed

lemma labelled_cases_I:
  assumes "c \<in> set cases" and "join_case fvs labels c = Some (c, f, l)" and "label_known l"
  shows "(c, f, l) \<in> set (labelled_cases fvs labels cases)"
  using assms by (force simp: labelled_cases_def List.map_filter_def)

lemma matrix_row_sel [simp]:
  "dataset_row.case_id (matrix_row sch x) = prediction_case.case_id (fst x)"
  "dataset_row.subject_id (matrix_row sch x) = prediction_case.subject_id (fst x)"
  "dataset_row.label (matrix_row sch x) = label_row.label (snd (snd x))"
  by (simp_all add: matrix_row_def split: prod.splits)

lemma assembled_rows_distinct:
  assumes "distinct (map prediction_case.case_id cases)"
  shows "distinct (map dataset_row.case_id (assembled_rows sch cases fvs labels))"
  using labelled_cases_distinct [OF assms, of fvs labels]
  by (simp add: assembled_rows_def comp_def)

subsection \<open>What the assembler returns\<close>

lemma assemble_InrD:
  assumes "assemble prng cfg sch cases fvs labels = Inr d"
  shows "train d = partition_rows prng cfg Train (assembled_rows sch cases fvs labels)"
    and "validation d = partition_rows prng cfg Validation (assembled_rows sch cases fvs labels)"
    and "test d = partition_rows prng cfg Test (assembled_rows sch cases fvs labels)"
    and "schema d = sch"
  using assms
  by (auto simp: assemble_def assembled_rows_def Let_def split: option.splits)

lemma rows_of_assemble:
  assumes "assemble prng cfg sch cases fvs labels = Inr d"
  shows "rows_of d n = partition_rows prng cfg n (assembled_rows sch cases fvs labels)"
  using assemble_InrD [OF assms] by (cases n) (simp_all add: rows_of_def)

lemma partition_rows_disjoint:
  assumes "distinct (map dataset_row.case_id rows)" and "n \<noteq> n'"
  shows "case_ids (partition_rows prng cfg n rows) \<inter> case_ids (partition_rows prng cfg n' rows) = {}"
proof -
  from assms(1) have inj: "inj_on dataset_row.case_id (set rows)"
    by (simp add: distinct_map)
  show ?thesis
  proof (rule ccontr)
    assume "\<not> ?thesis"
    then obtain r r'
      where r: "r \<in> set rows" "assign_partition prng cfg (dataset_row.subject_id r) = n"
        and r': "r' \<in> set rows" "assign_partition prng cfg (dataset_row.subject_id r') = n'"
        and eq: "dataset_row.case_id r = dataset_row.case_id r'"
      by (auto simp: case_ids_def partition_rows_def)
    from inj eq r(1) r'(1) have "r = r'" by (rule inj_onD)
    with r(2) r'(2) assms(2) show False by simp
  qed
qed

lemma partitions_of_subject_assign:
  assumes "\<exists>r \<in> set rows. dataset_row.subject_id r = s"
    and "\<And>n. rows_of d n = partition_rows prng cfg n rows"
  shows "partitions_of_subject d s = [assign_partition prng cfg s]"
proof -
  have "list_ex (\<lambda>r. dataset_row.subject_id r = s) (rows_of d n)
          \<longleftrightarrow> n = assign_partition prng cfg s" for n
    using assms by (auto simp: list_ex_iff partition_rows_def)
  then show ?thesis
    by (cases "assign_partition prng cfg s") (simp_all add: partitions_of_subject_def)
qed

subsection \<open>The labels the assembler finds\<close>

lemma find_construct_label:
  assumes "distinct (map prediction_case.case_id cases)" and "c \<in> set cases"
  shows "find (\<lambda>l. label_row.case_id l = prediction_case.case_id c)
           (label_constructor horizon events cases) = Some (construct_label horizon events c)"
  using assms
proof (induction cases)
  case Nil
  then show ?case by simp
next
  case (Cons a cases)
  show ?case
  proof (cases "a = c")
    case True
    then show ?thesis by (simp add: label_constructor_def construct_label_def)
  next
    case False
    with Cons.prems have "c \<in> set cases"
      and "prediction_case.case_id a \<noteq> prediction_case.case_id c"
      by auto
    with Cons show ?thesis
      by (simp add: label_constructor_def construct_label_def)
  qed
qed

lemma labelled_cases_label:
  assumes "distinct (map prediction_case.case_id cases)"
    and "(c, f, l) \<in> set (labelled_cases fvs (label_constructor horizon events cases) cases)"
  shows "c \<in> set cases"
    and "l = construct_label horizon events c"
    and "outcome_window_end c \<le> horizon"
proof -
  from assms(2) obtain c0 where c0: "c0 \<in> set cases"
    and j: "join_case fvs (label_constructor horizon events cases) c0 = Some (c, f, l)"
    and known: "label_known l"
    by (auto simp: labelled_cases_def List.map_filter_def)
  from j have "c = c0" by (simp add: join_case_SomeD(1))
  with c0 show c: "c \<in> set cases" by simp
  from j \<open>c = c0\<close> have "find (\<lambda>l. label_row.case_id l = prediction_case.case_id c)
      (label_constructor horizon events cases) = Some l"
    by (simp add: join_case_SomeD(3))
  with find_construct_label [OF assms(1) c, of horizon events]
  show "l = construct_label horizon events c" by simp
  with known show "outcome_window_end c \<le> horizon" by (simp add: construct_label_def)
qed

lemma assembled_rows_from_case:
  assumes "distinct (map prediction_case.case_id cases)"
    and "r \<in> set (assembled_rows sch cases fvs (label_constructor horizon events cases))"
  shows "\<exists>c \<in> set cases. prediction_case.case_id c = dataset_row.case_id r \<and>
           outcome_window_end c \<le> horizon \<and>
           dataset_row.label r = label_row.label (construct_label horizon events c)"
proof -
  from assms(2) obtain c f l
    where x: "(c, f, l) \<in> set (labelled_cases fvs (label_constructor horizon events cases) cases)"
      and r: "r = matrix_row sch (c, f, l)"
    by (auto simp: assembled_rows_def)
  from labelled_cases_label [OF assms(1) x] r show ?thesis
    by auto
qed

lemma assemble_example:
  "assemble example_prng example_config example_schema example_cases example_features
     (label_constructor 200 example_events example_cases) = Inr example_dataset"
  by code_simp

lemma example_cases_distinct: "distinct (map prediction_case.case_id example_cases)"
  by (simp add: example_cases_def admission_case_def)

subsection \<open>Readmission labels\<close>

lemma label_iff_qualifying:
  "label_row.label (construct_label horizon events c) \<longleftrightarrow> (\<exists>e \<in> set events. qualifying c e)"
  by (simp add: construct_label_def list_ex_iff)

text \<open>
  Claim C4.  The readmission label follows the first occurrence in the forward window.
  For an admission \<open>k\<close> of subject \<open>s\<close> discharged at \<open>D\<close> under a 30-day window: a log
  that holds another admission of \<open>s\<close> at \<open>D + 10\<close> gives a positive label, whatever
  else the log holds; a log whose only event after the discharge is an admission at
  \<open>D + 45\<close> gives a negative label.  For any case and log the label is positive exactly
  when the number of qualifying events is not zero: one qualifying event is enough, and
  further events change nothing.
\<close>

theorem readmission_label_first_occurrence:
  "(k' \<noteq> k \<longrightarrow>
      label_row.label (construct_label horizon
        (before @ \<lparr> event.subject_id = s, event_time = D + 10, event_type = Admission,
                    payload = k' \<rparr> # after)
        (admission_case 30 k s D))) \<and>
   ((\<forall>e \<in> set before. event_time e \<le> D) \<longrightarrow>
      \<not> label_row.label (construct_label horizon
        (before @ [\<lparr> event.subject_id = s, event_time = D + 45, event_type = Admission,
                     payload = k' \<rparr>])
        (admission_case 30 k s D))) \<and>
   (label_row.label (construct_label horizon events c)
      \<longleftrightarrow> 0 < length (filter (qualifying c) events)) \<and>
   (qualifying c e \<longrightarrow> label_row.label (construct_label horizon (events @ e # later) c))"
proof (intro conjI impI)
  assume "k' \<noteq> k"
  then have "qualifying (admission_case 30 k s D)
      \<lparr> event.subject_id = s, event_time = D + 10, event_type = Admission, payload = k' \<rparr>"
    by (simp add: qualifying_def admission_case_def)
  then show "label_row.label (construct_label horizon
      (before @ \<lparr> event.subject_id = s, event_time = D + 10, event_type = Admission,
                  payload = k' \<rparr> # after)
      (admission_case 30 k s D))"
    unfolding label_iff_qualifying by simp
next
  assume "\<forall>e \<in> set before. event_time e \<le> D"
  then have "\<not> qualifying (admission_case 30 k s D) e" if "e \<in> set before" for e
    using that by (auto simp: qualifying_def admission_case_def)
  moreover have "\<not> qualifying (admission_case 30 k s D)
      \<lparr> event.subject_id = s, event_time = D + 45, event_type = Admission, payload = k' \<rparr>"
    by (simp add: qualifying_def admission_case_def)
  ultimately show "\<not> label_row.label (construct_label horizon
      (before @ [\<lparr> event.subject_id = s, event_time = D + 45, event_type = Admission,
                   payload = k' \<rparr>])
      (admission_case 30 k s D))"
    unfolding label_iff_qualifying by auto
next
  show "label_row.label (construct_label horizon events c)
      \<longleftrightarrow> 0 < length (filter (qualifying c) events)"
    unfolding label_iff_qualifying by (simp add: filter_empty_conv)
next
  assume "qualifying c e"
  then show "label_row.label (construct_label horizon (events @ e # later) c)"
    unfolding label_iff_qualifying by simp
qed

text \<open>
  The window is open at the discharge and closed at its end: an admission on day
  \<open>D + 30\<close> counts, one on day \<open>D\<close> or on day \<open>D + 31\<close> does not, and neither does
  a transfer or an event of the index encounter itself.
\<close>

lemma readmission_window_boundaries:
  "qualifying (admission_case 30 k s D)
     \<lparr> event.subject_id = s, event_time = D + 30, event_type = Admission, payload = Suc k \<rparr> \<and>
   \<not> qualifying (admission_case 30 k s D)
     \<lparr> event.subject_id = s, event_time = D + 31, event_type = Admission, payload = Suc k \<rparr> \<and>
   \<not> qualifying (admission_case 30 k s D)
     \<lparr> event.subject_id = s, event_time = D, event_type = Admission, payload = Suc k \<rparr> \<and>
   \<not> qualifying (admission_case 30 k s D)
     \<lparr> event.subject_id = s, event_time = D + 10, event_type = Transfer, payload = Suc k \<rparr> \<and>
   \<not> qualifying (admission_case 30 k s D)
     \<lparr> event.subject_id = s, event_time = D + 10, event_type = Admission, payload = k \<rparr>"
  by (simp add: qualifying_def admission_case_def)

text \<open>
  The witness has two follow-up admissions inside the window (days 110 and 120 after a
  discharge at day 100), and one at day 145 outside it.
\<close>

theorem readmission_label_first_occurrence_witness:
  "label_row.label (construct_label 200
      [\<lparr> event.subject_id = 10, event_time = 96, event_type = Admission, payload = 1 \<rparr>,
       \<lparr> event.subject_id = 10, event_time = 110, event_type = Admission, payload = 2 \<rparr>,
       \<lparr> event.subject_id = 10, event_time = 120, event_type = Admission, payload = 3 \<rparr>]
      (admission_case 30 1 10 100)) \<and>
   \<not> label_row.label (construct_label 200
      [\<lparr> event.subject_id = 10, event_time = 96, event_type = Admission, payload = 1 \<rparr>,
       \<lparr> event.subject_id = 10, event_time = 145, event_type = Admission, payload = 2 \<rparr>]
      (admission_case 30 1 10 100)) \<and>
   length (filter (qualifying (admission_case 30 1 10 100))
      [\<lparr> event.subject_id = 10, event_time = 96, event_type = Admission, payload = 1 \<rparr>,
       \<lparr> event.subject_id = 10, event_time = 110, event_type = Admission, payload = 2 \<rparr>,
       \<lparr> event.subject_id = 10, event_time = 120, event_type = Admission, payload = 3 \<rparr>]) = 2"
  using readmission_label_first_occurrence
    [of 2 1 200
        "[\<lparr> event.subject_id = 10, event_time = 96, event_type = Admission, payload = 1 \<rparr>]"
        10 100
        "[\<lparr> event.subject_id = 10, event_time = 120, event_type = Admission, payload = 3 \<rparr>]"]
  by (simp add: construct_label_def qualifying_def admission_case_def)

subsection \<open>Censored cases\<close>

lemma unknown_label_excluded:
  assumes a: "assemble prng cfg sch cases fvs labels = Inr d"
    and find: "find (\<lambda>l. label_row.case_id l = k) labels = Some l"
    and unknown: "\<not> label_known l"
  shows "k \<notin> case_ids (rows_of d n)"
proof
  assume "k \<in> case_ids (rows_of d n)"
  then obtain x where x: "x \<in> set (labelled_cases fvs labels cases)"
    and k: "k = prediction_case.case_id (fst x)"
    by (auto simp: case_ids_def rows_of_assemble [OF a] partition_rows_def assembled_rows_def)
  obtain c f l' where [simp]: "x = (c, f, l')" by (cases x)
  from x obtain c0 where "join_case fvs labels c0 = Some (c, f, l')" and known: "label_known l'"
    by (auto simp: labelled_cases_def List.map_filter_def)
  then have "join_case fvs labels c = Some (c, f, l')"
    using join_case_SomeD(1) by blast
  then have "find (\<lambda>l. label_row.case_id l = prediction_case.case_id c) labels = Some l'"
    by (rule join_case_SomeD(3))
  with find k have "l' = l" by simp
  with known unknown show False by simp
qed

text \<open>
  Claim C2.  A case of the cohort whose outcome window ends after the data horizon gets
  \<open>label_known = False\<close> from the label constructor, and the assembler, run on the
  constructor's label table, puts its \<open>case_id\<close> in none of the three partitions.  No
  label is made up: every row of a partition belongs to a case whose window ended by the
  horizon, and carries the label the constructor computed for that case.  The case ids
  of the cohort are unique, as the data model says.
\<close>

theorem censored_cases_excluded:
  assumes a: "assemble prng cfg sch cases fvs (label_constructor horizon events cases) = Inr d"
    and dist: "distinct (map prediction_case.case_id cases)"
    and c: "c \<in> set cases"
    and censored: "horizon < outcome_window_end c"
  shows "\<not> label_known (construct_label horizon events c) \<and>
         prediction_case.case_id c \<notin> case_ids (train d) \<and>
         prediction_case.case_id c \<notin> case_ids (validation d) \<and>
         prediction_case.case_id c \<notin> case_ids (test d) \<and>
         (\<forall>n. \<forall>r \<in> set (rows_of d n). \<exists>c' \<in> set cases.
            prediction_case.case_id c' = dataset_row.case_id r \<and>
            outcome_window_end c' \<le> horizon \<and>
            dataset_row.label r = label_row.label (construct_label horizon events c'))"
proof -
  from censored have unknown: "\<not> label_known (construct_label horizon events c)"
    by (simp add: construct_label_def)
  have "find (\<lambda>l. label_row.case_id l = prediction_case.case_id c)
      (label_constructor horizon events cases) = Some (construct_label horizon events c)"
    using dist c by (rule find_construct_label)
  from unknown_label_excluded [OF a this unknown]
  have out: "prediction_case.case_id c \<notin> case_ids (rows_of d n)" for n .
  have known: "\<exists>c' \<in> set cases.
      prediction_case.case_id c' = dataset_row.case_id r \<and>
      outcome_window_end c' \<le> horizon \<and>
      dataset_row.label r = label_row.label (construct_label horizon events c')"
    if "r \<in> set (rows_of d n)" for n r
  proof -
    from that have "r \<in> set (assembled_rows sch cases fvs (label_constructor horizon events cases))"
      by (simp add: rows_of_assemble [OF a] partition_rows_def)
    with dist show ?thesis by (rule assembled_rows_from_case)
  qed
  from out [of Train] out [of Validation] out [of Test] unknown known
  show ?thesis by (simp add: rows_of_def)
qed

text \<open>
  In the small cohort, case 4 is discharged at day 190 with data up to day 200.  The log
  holds a qualifying admission at day 195, so its label would be positive, yet the case
  is in no partition.
\<close>

theorem censored_cases_excluded_witness:
  "\<not> label_known (construct_label 200 example_events (admission_case 30 4 30 190)) \<and>
   4 \<notin> case_ids (train example_dataset) \<and>
   4 \<notin> case_ids (validation example_dataset) \<and>
   4 \<notin> case_ids (test example_dataset) \<and>
   label_row.label (construct_label 200 example_events (admission_case 30 4 30 190))"
  using censored_cases_excluded [OF assemble_example example_cases_distinct,
      of "admission_case 30 4 30 190"]
  by (simp add: example_cases_def admission_case_def example_dataset_def case_ids_def
      construct_label_def qualifying_def example_events_def)

subsection \<open>Disjoint partitions, split by subject\<close>

text \<open>
  Claim C3.  Whenever the assembler returns a dataset for a cohort with unique case ids:
  the case-id sets of the three partitions are pairwise disjoint; for every row of a
  partition, that partition is the only one holding a row of the row's subject; and
  every case that has a feature vector and a known label is in the partition its
  subject is assigned to.  This holds for any generator \<open>prng\<close> and any configuration.
\<close>

theorem partitions_disjoint_by_subject:
  assumes a: "assemble prng cfg sch cases fvs labels = Inr d"
    and dist: "distinct (map prediction_case.case_id cases)"
  shows "case_ids (train d) \<inter> case_ids (validation d) = {} \<and>
         case_ids (train d) \<inter> case_ids (test d) = {} \<and>
         case_ids (validation d) \<inter> case_ids (test d) = {} \<and>
         (\<forall>n. \<forall>r \<in> set (rows_of d n). partitions_of_subject d (dataset_row.subject_id r) = [n]) \<and>
         (\<forall>c \<in> set cases. \<forall>f l. join_case fvs labels c = Some (c, f, l) \<and> label_known l \<longrightarrow>
            prediction_case.case_id c
              \<in> case_ids (rows_of d (assign_partition prng cfg (prediction_case.subject_id c))))"
proof -
  let ?rows = "assembled_rows sch cases fvs labels"
  note parts = assemble_InrD [OF a]
  have rows: "distinct (map dataset_row.case_id ?rows)"
    using dist by (rule assembled_rows_distinct)
  have 1: "case_ids (train d) \<inter> case_ids (validation d) = {}"
    unfolding parts using rows by (rule partition_rows_disjoint) simp
  have 2: "case_ids (train d) \<inter> case_ids (test d) = {}"
    unfolding parts using rows by (rule partition_rows_disjoint) simp
  have 3: "case_ids (validation d) \<inter> case_ids (test d) = {}"
    unfolding parts using rows by (rule partition_rows_disjoint) simp
  have 4: "partitions_of_subject d (dataset_row.subject_id r) = [n]"
    if "r \<in> set (rows_of d n)" for n r
  proof -
    from that have r: "r \<in> set ?rows"
      and n: "assign_partition prng cfg (dataset_row.subject_id r) = n"
      by (simp_all add: rows_of_assemble [OF a] partition_rows_def)
    from r have "\<exists>r' \<in> set ?rows. dataset_row.subject_id r' = dataset_row.subject_id r"
      by blast
    then have "partitions_of_subject d (dataset_row.subject_id r)
        = [assign_partition prng cfg (dataset_row.subject_id r)]"
      using rows_of_assemble [OF a] by (rule partitions_of_subject_assign)
    with n show ?thesis by simp
  qed
  have 5: "prediction_case.case_id c
      \<in> case_ids (rows_of d (assign_partition prng cfg (prediction_case.subject_id c)))"
    if "c \<in> set cases" and "join_case fvs labels c = Some (c, f, l)" and "label_known l"
    for c f l
  proof -
    from that have "(c, f, l) \<in> set (labelled_cases fvs labels cases)"
      by (rule labelled_cases_I)
    then have "matrix_row sch (c, f, l) \<in> set ?rows"
      by (simp add: assembled_rows_def)
    then have "matrix_row sch (c, f, l)
        \<in> set (rows_of d (assign_partition prng cfg (prediction_case.subject_id c)))"
      by (simp add: rows_of_assemble [OF a] partition_rows_def)
    then have "dataset_row.case_id (matrix_row sch (c, f, l))
        \<in> case_ids (rows_of d (assign_partition prng cfg (prediction_case.subject_id c)))"
      unfolding case_ids_def by (rule imageI)
    then show ?thesis by simp
  qed
  from 1 2 3 4 5 show ?thesis by blast
qed

theorem partitions_disjoint_by_subject_witness:
  "case_ids (train example_dataset) \<inter> case_ids (validation example_dataset) = {} \<and>
   case_ids (train example_dataset) \<inter> case_ids (test example_dataset) = {} \<and>
   case_ids (validation example_dataset) \<inter> case_ids (test example_dataset) = {} \<and>
   partitions_of_subject example_dataset 10 = [Validation] \<and>
   partitions_of_subject example_dataset 20 = [Train] \<and>
   partitions_of_subject example_dataset 15 = [Test] \<and>
   case_ids (validation example_dataset) = {1, 2}"
  using partitions_disjoint_by_subject [OF assemble_example example_cases_distinct]
  by (simp add: example_dataset_def case_ids_def partitions_of_subject_def rows_of_def)


end
